theory Spec2Isabelle
  imports Complex_Main
begin

section \<open>Message routing between agents (src/workflow/agent\_router.py)\<close>

subsection \<open>Python values\<close>

text \<open>
  A Python \<open>str\<close> is a sequence of Unicode code points: \<open>len\<close> counts code points and
  \<open>in\<close> is substring search on them. The Cyrillic literals of the source do not fit the
  8-bit \<open>char\<close>, so a string is a list of code points; \<open>ascii\<close> embeds an ASCII
  literal.
\<close>

type_synonym pystr = "nat list"

definition ascii :: "string \<Rightarrow> pystr" where
  "ascii s = map of_char s"

text \<open>
  \<open>Any\<close>-typed payloads (message content, metadata values, agent results). Python floats
  (the measured durations) are carried as reals; no property below depends on rounding.
\<close>

datatype pyval =
    PNone
  | PBool bool
  | PInt int
  | PFloat real
  | PStr pystr
  | PList "pyval list"
  | PDict "(pystr \<times> pyval) list"

text \<open>
  A raised exception, as far as the router looks at it: \<open>type(e).__name__\<close>, \<open>str(e)\<close> and
  whether it is an instance of \<open>Exception\<close>. Both handlers of the router are
  \<open>except Exception\<close>: they catch the instances of \<open>Exception\<close> and let every other
  \<open>BaseException\<close> (\<open>asyncio.CancelledError\<close>, \<open>KeyboardInterrupt\<close>, \<open>SystemExit\<close>) pass to
  the caller.
\<close>

datatype exn = Exn (exn_type: pystr) (exn_str: pystr) (is_Exception: bool)

definition IndexError :: exn where
  \<comment> \<open>what \<open>message.recipients[0]\<close> raises on an empty list\<close>
  "IndexError = Exn (ascii ''IndexError'') (ascii ''list index out of range'') True"

definition ValueError :: "pystr \<Rightarrow> exn" where
  "ValueError msg = Exn (ascii ''ValueError'') msg True"

definition CancelledError :: exn where
  \<comment> \<open>\<open>asyncio.CancelledError()\<close>, a \<open>BaseException\<close> that is no \<open>Exception\<close>\<close>
  "CancelledError = Exn (ascii ''CancelledError'') [] False"

subsection \<open>Data model\<close>

datatype MessageType = TASK | RESULT | ERROR | CONTROL | DATA

text \<open>
  What the field \<open>message_type\<close> of a message can hold. The dataclass does not check the
  annotation \<open>MessageType\<close>: the field holds a member of the enumeration or any other
  Python value the caller passed.
\<close>

datatype kind = Member MessageType | Value pyval

datatype RoutingStrategy = SEQUENTIAL | PARALLEL | CONDITIONAL | BROADCAST

text \<open>
  The dataclass \<open>Message\<close>. The fields \<open>id\<close> and \<open>priority\<close> are named \<open>msg_id\<close> and
  \<open>msg_priority\<close> here (\<open>id\<close> is the identity function of HOL, and \<open>priority\<close> is also a
  field of \<open>RoutingRule\<close>). The field \<open>message_type\<close> holds a \<open>kind\<close>. The \<open>timestamp\<close>
  field, filled from the wall clock at construction and read by nothing in the router, is
  left out. The metadata dict is a map from keys to values.
\<close>

record Message =
  msg_id :: pystr
  sender :: pystr
  recipients :: "pystr list"
  message_type :: kind
  content :: pyval
  metadata :: "pystr \<rightharpoonup> pyval"
  msg_priority :: int

text \<open>
  \<open>MessageType(value)\<close>: lookup of an enumeration member by its value; any other value
  raises \<open>ValueError\<close>.
\<close>

definition MessageType_of_value :: "pystr \<Rightarrow> MessageType option" where
  "MessageType_of_value v =
     (if v = ascii ''task'' then Some TASK
      else if v = ascii ''result'' then Some RESULT
      else if v = ascii ''error'' then Some ERROR
      else if v = ascii ''control'' then Some CONTROL
      else if v = ascii ''data'' then Some DATA
      else None)"

text \<open>
  \<open>new_Message\<close> is the generated constructor followed by \<open>__post_init__\<close>: a
  \<open>message_type\<close> that is a \<open>str\<close> is converted through \<open>MessageType(...)\<close>, anything else
  is stored as it is. \<open>None\<close> stands for the \<open>ValueError\<close> raised by the conversion.
\<close>

definition new_Message ::
  "pystr \<Rightarrow> pystr \<Rightarrow> pystr list \<Rightarrow> kind \<Rightarrow> pyval \<Rightarrow> (pystr \<rightharpoonup> pyval) \<Rightarrow> int
     \<Rightarrow> Message option" where
  "new_Message i s rs mt c md p =
     (case mt of
        Value (PStr v) \<Rightarrow>
          (case MessageType_of_value v of
             None \<Rightarrow> None
           | Some t \<Rightarrow>
               Some \<lparr>msg_id = i, sender = s, recipients = rs, message_type = Member t,
                     content = c, metadata = md, msg_priority = p\<rparr>)
      | _ \<Rightarrow>
          Some \<lparr>msg_id = i, sender = s, recipients = rs, message_type = mt,
                content = c, metadata = md, msg_priority = p\<rparr>)"

text \<open>
  The dataclass \<open>RoutingRule\<close>. The condition is a caller-supplied callable; it may raise
  (\<open>Inl\<close>) as any Python function may.
\<close>

record RoutingRule =
  condition :: "Message \<Rightarrow> exn + bool"
  target_agents :: "pystr list"
  strategy :: RoutingStrategy
  priority :: int
  description :: pystr

text \<open>
  An agent as the router uses it (\<open>BaseAgent\<close>): \<open>process\<close> returns a result or raises,
  \<open>get_capabilities\<close> and \<open>get_limitations\<close> return copies of the configured lists. The
  call to the language model behind \<open>process\<close> is outside the repository, so the outcome
  of \<open>process\<close> on a content is a parameter of the model.
\<close>

record Agent =
  process :: "pyval \<Rightarrow> exn + pyval"
  get_capabilities :: "pystr list"
  get_limitations :: "pystr list"

record Stats =
  messages_processed :: int
  messages_routed :: int
  errors :: int
  avg_processing_time :: real

text \<open>
  The router's state. \<open>agents\<close> is a Python dict, which iterates in insertion order: an
  association list in registration order. The queue, the history and the running flag
  belong to the processing loop and are not part of this model.
\<close>

record AgentRouter =
  agents :: "(pystr \<times> Agent) list"
  routing_rules :: "RoutingRule list"
  stats :: Stats

definition init_router :: AgentRouter where
  \<comment> \<open>\<open>AgentRouter.__init__\<close>\<close>
  "init_router =
     \<lparr>agents = [], routing_rules = [],
      stats = \<lparr>messages_processed = 0, messages_routed = 0, errors = 0,
               avg_processing_time = 0\<rparr>\<rparr>"

text \<open>\<open>d[k] = v\<close> on an insertion-ordered dict: an existing key keeps its position.\<close>

fun dict_set :: "('k \<times> 'v) list \<Rightarrow> 'k \<Rightarrow> 'v \<Rightarrow> ('k \<times> 'v) list" where
  "dict_set [] k v = [(k, v)]"
| "dict_set ((k', v') # kvs) k v =
     (if k' = k then (k, v) # kvs else (k', v') # dict_set kvs k v)"

definition register_agent :: "AgentRouter \<Rightarrow> pystr \<Rightarrow> Agent \<Rightarrow> AgentRouter" where
  \<comment> \<open>\<open>self.agents[agent_id] = agent\<close> in \<open>initialize_agents\<close>\<close>
  "register_agent s agent_id agent = s\<lparr>agents := dict_set (agents s) agent_id agent\<rparr>"

subsection \<open>Rule registration\<close>

text \<open>
  \<open>add_routing_rule\<close> appends and then sorts with \<open>key=priority, reverse=True\<close>. Python's
  sort is stable and \<open>reverse=True\<close> keeps elements of equal key in their original order,
  which is the stable ascending sort on the negated priority.
\<close>

definition add_routing_rule :: "AgentRouter \<Rightarrow> RoutingRule \<Rightarrow> AgentRouter" where
  "add_routing_rule s rule =
     s\<lparr>routing_rules := sort_key (\<lambda>x. - priority x) (routing_rules s @ [rule])\<rparr>"

subsection \<open>Routing\<close>

text \<open>
  The comprehension \<open>[rule for rule in self.routing_rules if rule.condition(message)]\<close>:
  conditions are evaluated in list order and the first one that raises ends the
  evaluation.
\<close>

fun matching_rules :: "RoutingRule list \<Rightarrow> Message \<Rightarrow> exn + RoutingRule list" where
  "matching_rules [] m = Inr []"
| "matching_rules (rule # rules) m =
     (case condition rule m of
        Inl e \<Rightarrow> Inl e
      | Inr b \<Rightarrow>
          (case matching_rules rules m of
             Inl e \<Rightarrow> Inl e
           | Inr ms \<Rightarrow> Inr (if b then rule # ms else ms)))"

definition available_agents :: "(pystr \<times> Agent) list \<Rightarrow> RoutingRule \<Rightarrow> pystr list" where
  "available_agents ags rule =
     filter (\<lambda>agent_id. agent_id \<in> set (map fst ags)) (target_agents rule)"

text \<open>
  The message built in the body of the sequential loop: \<open>i\<close> is the index of
  \<open>enumerate\<close>, \<open>n\<close> is \<open>len(available_agents)\<close> and \<open>routed\<close> the list built so far.
\<close>

definition sequential_message ::
  "Message \<Rightarrow> nat \<Rightarrow> nat \<Rightarrow> pystr \<Rightarrow> Message list \<Rightarrow> Message" where
  "sequential_message m n i agent_id routed =
     \<lparr>msg_id = msg_id m @ ascii ''_to_'' @ agent_id,
      sender = sender m,
      recipients = [agent_id],
      message_type = message_type m,
      content = content m,
      metadata = (metadata m)
        (ascii ''step'' \<mapsto> PInt (int i + 1),
         ascii ''total_steps'' \<mapsto> PInt (int n),
         ascii ''previous_results'' \<mapsto> PList (map content routed)),
      msg_priority = msg_priority m\<rparr>"

fun sequential_loop ::
  "Message \<Rightarrow> nat \<Rightarrow> nat \<Rightarrow> pystr list \<Rightarrow> Message list \<Rightarrow> Message list" where
  "sequential_loop m n i [] routed = routed"
| "sequential_loop m n i (agent_id # rest) routed =
     sequential_loop m n (i + 1) rest (routed @ [sequential_message m n i agent_id routed])"

definition parallel_message :: "Message \<Rightarrow> pystr \<Rightarrow> Message" where
  "parallel_message m agent_id =
     \<lparr>msg_id = msg_id m @ ascii ''_to_'' @ agent_id,
      sender = sender m,
      recipients = [agent_id],
      message_type = message_type m,
      content = content m,
      metadata = (metadata m)
        (ascii ''parallel'' \<mapsto> PBool True,
         ascii ''agent_id'' \<mapsto> PStr agent_id),
      msg_priority = msg_priority m\<rparr>"

definition broadcast_message :: "Message \<Rightarrow> pystr \<Rightarrow> Message" where
  "broadcast_message m agent_id =
     \<lparr>msg_id = msg_id m @ ascii ''_broadcast_'' @ agent_id,
      sender = sender m,
      recipients = [agent_id],
      message_type = message_type m,
      content = content m,
      metadata = (metadata m)(ascii ''broadcast'' \<mapsto> PBool True),
      msg_priority = msg_priority m\<rparr>"

text \<open>
  The \<open>if\<close>/\<open>elif\<close> chain on the strategy, entered with a non-empty list of available
  agents. There is no branch for \<open>CONDITIONAL\<close>: the list stays empty.
\<close>

fun expand :: "(pystr \<times> Agent) list \<Rightarrow> RoutingRule \<Rightarrow> pystr list \<Rightarrow> Message \<Rightarrow> Message list" where
  "expand ags rule avail m =
     (case strategy rule of
        SEQUENTIAL \<Rightarrow> sequential_loop m (length avail) 0 avail []
      | PARALLEL \<Rightarrow> map (parallel_message m) avail
      | BROADCAST \<Rightarrow> map (broadcast_message m) (map fst ags)
      | CONDITIONAL \<Rightarrow> [])"

definition count_routed :: "AgentRouter \<Rightarrow> nat \<Rightarrow> AgentRouter" where
  \<comment> \<open>\<open>self.stats["messages_routed"] += len(routed_messages)\<close>\<close>
  "count_routed s n =
     s\<lparr>stats := (stats s)\<lparr>messages_routed := messages_routed (stats s) + int n\<rparr>\<rparr>"

definition count_error :: "AgentRouter \<Rightarrow> AgentRouter" where
  \<comment> \<open>\<open>self.stats["errors"] += 1\<close>\<close>
  "count_error s = s\<lparr>stats := (stats s)\<lparr>errors := errors (stats s) + 1\<rparr>\<rparr>"

text \<open>
  \<open>route_message\<close> gives the outcome of the call, the returned list of derived messages
  (\<open>Inr\<close>) or the exception that leaves the call (\<open>Inl\<close>), and the router after the call.
  The only call of the body that can raise is a rule's condition. The handler catches an
  \<open>Exception\<close>, counts the error, and the function returns the list built so far,
  which is still empty then; any other exception passes to the caller.
\<close>

definition route_message ::
  "AgentRouter \<Rightarrow> Message \<Rightarrow> (exn + Message list) \<times> AgentRouter" where
  "route_message s m =
     (case matching_rules (routing_rules s) m of
        Inl e \<Rightarrow> (if is_Exception e then (Inr [], count_error s) else (Inl e, s))
      | Inr [] \<Rightarrow> (Inr [], s)
      | Inr (rule # _) \<Rightarrow>
          (let avail = available_agents (agents s) rule in
           if avail = [] then (Inr [], s)
           else
             (let routed = expand (agents s) rule avail m
              in (Inr routed, count_routed s (length routed)))))"

subsection \<open>Processing\<close>

definition agent_not_found :: "pystr \<Rightarrow> pystr" where
  \<comment> \<open>the text of the \<open>ValueError\<close> raised for an unregistered agent: Cyrillic "Agent",
      the agent id, Cyrillic "ne najden"\<close>
  "agent_not_found agent_id =
     [1040, 1075, 1077, 1085, 1090, 32] @ agent_id @
     [32, 1085, 1077, 32, 1085, 1072, 1081, 1076, 1077, 1085]"

definition error_prefix :: pystr where
  \<comment> \<open>Cyrillic "Oshibka obrabotki: ", put before \<open>str(e)\<close> in an error response\<close>
  "error_prefix =
     [1054, 1096, 1080, 1073, 1082, 1072, 32,
      1086, 1073, 1088, 1072, 1073, 1086, 1090, 1082, 1080, 58, 32]"

text \<open>
  The \<open>try\<close> block up to the agent's answer: \<open>message.recipients[0]\<close>, the lookup
  \<open>self.agents.get(agent_id)\<close> with its \<open>raise ValueError\<close>, and \<open>agent.process\<close>.
\<close>

definition run_agent :: "AgentRouter \<Rightarrow> Message \<Rightarrow> exn + (pystr \<times> Agent \<times> pyval)" where
  "run_agent s m =
     (case recipients m of
        [] \<Rightarrow> Inl IndexError
      | agent_id # _ \<Rightarrow>
          (case map_of (agents s) agent_id of
             None \<Rightarrow> Inl (ValueError (agent_not_found agent_id))
           | Some agent \<Rightarrow>
               (case process agent (content m) of
                  Inl e \<Rightarrow> Inl e
                | Inr result \<Rightarrow> Inr (agent_id, agent, result))))"

definition reply_to :: "Message \<Rightarrow> pystr list" where
  \<comment> \<open>\<open>[message.sender] if message.sender != "system" else []\<close>\<close>
  "reply_to m = (if sender m \<noteq> ascii ''system'' then [sender m] else [])"

definition response :: "Message \<Rightarrow> pystr \<Rightarrow> Agent \<Rightarrow> pyval \<Rightarrow> real \<Rightarrow> Message" where
  "response m agent_id agent result seconds =
     \<lparr>msg_id = ascii ''response_'' @ msg_id m,
      sender = agent_id,
      recipients = reply_to m,
      message_type = Member RESULT,
      content = result,
      metadata = Map.empty
        (ascii ''original_message_id'' \<mapsto> PStr (msg_id m),
         ascii ''processing_time'' \<mapsto> PFloat seconds,
         ascii ''agent_capabilities'' \<mapsto> PList (map PStr (get_capabilities agent)),
         ascii ''agent_limitations'' \<mapsto> PList (map PStr (get_limitations agent))),
      msg_priority = msg_priority m\<rparr>"

definition error_response :: "Message \<Rightarrow> exn \<Rightarrow> real \<Rightarrow> Message" where
  "error_response m e seconds =
     \<lparr>msg_id = ascii ''error_'' @ msg_id m,
      sender = (case recipients m of [] \<Rightarrow> ascii ''system'' | agent_id # _ \<Rightarrow> agent_id),
      recipients = reply_to m,
      message_type = Member ERROR,
      content = PStr (error_prefix @ exn_str e),
      metadata = Map.empty
        (ascii ''original_message_id'' \<mapsto> PStr (msg_id m),
         ascii ''error_type'' \<mapsto> PStr (exn_type e),
         ascii ''processing_time'' \<mapsto> PFloat seconds),
      msg_priority = msg_priority m\<rparr>"

definition count_processed :: "AgentRouter \<Rightarrow> real \<Rightarrow> AgentRouter" where
  \<comment> \<open>the running average, then \<open>self.stats["messages_processed"] += 1\<close>\<close>
  "count_processed s seconds =
     s\<lparr>stats := (stats s)
        \<lparr>avg_processing_time :=
           (avg_processing_time (stats s) * of_int (messages_processed (stats s)) + seconds) /
           (of_int (messages_processed (stats s)) + 1),
         messages_processed := messages_processed (stats s) + 1\<rparr>\<rparr>"

text \<open>
  \<open>process_message\<close> gives the outcome of the call, the returned message (\<open>Inr\<close>) or the
  exception that leaves the call (\<open>Inl\<close>), and the router after the call. The handler
  catches an \<open>Exception\<close> and answers it with an error message; any other exception
  raised in the \<open>try\<close> block passes to the caller, the statistics untouched.
  \<open>elapsed k\<close> is the \<open>k\<close>-th reading of
  \<open>(datetime.now() - start_time).total_seconds()\<close> during the call: two readings on
  success (metadata, then statistics), one in the handler, which is entered before any
  other reading.
\<close>

definition process_message ::
  "AgentRouter \<Rightarrow> (nat \<Rightarrow> real) \<Rightarrow> Message \<Rightarrow> (exn + Message) \<times> AgentRouter" where
  "process_message s elapsed m =
     (case run_agent s m of
        Inr (agent_id, agent, result) \<Rightarrow>
          (Inr (response m agent_id agent result (elapsed 0)), count_processed s (elapsed 1))
      | Inl e \<Rightarrow>
          (if is_Exception e then (Inr (error_response m e (elapsed 0)), count_error s)
           else (Inl e, s)))"

subsection \<open>The default rules\<close>

text \<open>\<open>keyword in text\<close> on strings: \<open>keyword\<close> occurs in \<open>text\<close> as a contiguous piece.\<close>

fun contains :: "pystr \<Rightarrow> pystr \<Rightarrow> bool" where
  "contains keyword [] = (keyword = [])"
| "contains keyword (c # cs) =
     (take (length keyword) (c # cs) = keyword \<or> contains keyword cs)"

text \<open>
  \<open>str(x)\<close> is \<open>x\<close> itself on a string. Its value on other payloads and \<open>str.lower\<close> (the
  Unicode lower-casing of the interpreter) are parameters \<open>other\<close> and \<open>lower\<close> of the
  default rules.
\<close>

definition py_str :: "(pyval \<Rightarrow> pystr) \<Rightarrow> pyval \<Rightarrow> pystr" where
  "py_str other v = (case v of PStr s \<Rightarrow> s | _ \<Rightarrow> other v)"

definition has_keyword ::
  "(pystr \<Rightarrow> pystr) \<Rightarrow> (pyval \<Rightarrow> pystr) \<Rightarrow> pystr list \<Rightarrow> Message \<Rightarrow> exn + bool" where
  \<comment> \<open>the common shape of the six keyword conditions\<close>
  "has_keyword lower other keywords message =
     Inr (message_type message = Member TASK \<and>
          list_ex (\<lambda>keyword. contains keyword (lower (py_str other (content message))))
            keywords)"

text \<open>The keyword lists, in Cyrillic in the source (transliterated in the comments).\<close>

definition data_analysis_keywords :: "pystr list" where
  \<comment> \<open>analiz, dannye, statistika, trendy\<close>
  "data_analysis_keywords =
     [[1072, 1085, 1072, 1083, 1080, 1079],
      [1076, 1072, 1085, 1085, 1099, 1077],
      [1089, 1090, 1072, 1090, 1080, 1089, 1090, 1080, 1082, 1072],
      [1090, 1088, 1077, 1085, 1076, 1099]]"

definition code_generation_keywords :: "pystr list" where
  \<comment> \<open>kod, programma, funkciya, klass, algoritm\<close>
  "code_generation_keywords =
     [[1082, 1086, 1076],
      [1087, 1088, 1086, 1075, 1088, 1072, 1084, 1084, 1072],
      [1092, 1091, 1085, 1082, 1094, 1080, 1103],
      [1082, 1083, 1072, 1089, 1089],
      [1072, 1083, 1075, 1086, 1088, 1080, 1090, 1084]]"

definition code_review_keywords :: "pystr list" where
  \<comment> \<open>revyu, proverka, kod, kachestvo\<close>
  "code_review_keywords =
     [[1088, 1077, 1074, 1100, 1102],
      [1087, 1088, 1086, 1074, 1077, 1088, 1082, 1072],
      [1082, 1086, 1076],
      [1082, 1072, 1095, 1077, 1089, 1090, 1074, 1086]]"

definition project_management_keywords :: "pystr list" where
  \<comment> \<open>proekt, plan, upravlenie, zadachi, sroki\<close>
  "project_management_keywords =
     [[1087, 1088, 1086, 1077, 1082, 1090],
      [1087, 1083, 1072, 1085],
      [1091, 1087, 1088, 1072, 1074, 1083, 1077, 1085, 1080, 1077],
      [1079, 1072, 1076, 1072, 1095, 1080],
      [1089, 1088, 1086, 1082, 1080]]"

definition idea_generation_keywords :: "pystr list" where
  \<comment> \<open>ideya, innovaciya, kreativ, reshenie\<close>
  "idea_generation_keywords =
     [[1080, 1076, 1077, 1103],
      [1080, 1085, 1085, 1086, 1074, 1072, 1094, 1080, 1103],
      [1082, 1088, 1077, 1072, 1090, 1080, 1074],
      [1088, 1077, 1096, 1077, 1085, 1080, 1077]]"

definition quality_assessment_keywords :: "pystr list" where
  \<comment> \<open>kachestvo, ocenka, proverka, audit\<close>
  "quality_assessment_keywords =
     [[1082, 1072, 1095, 1077, 1089, 1090, 1074, 1086],
      [1086, 1094, 1077, 1085, 1082, 1072],
      [1087, 1088, 1086, 1074, 1077, 1088, 1082, 1072],
      [1072, 1091, 1076, 1080, 1090]]"

definition is_complex_task :: "(pyval \<Rightarrow> pystr) \<Rightarrow> Message \<Rightarrow> exn + bool" where
  "is_complex_task other message =
     Inr (message_type message = Member TASK \<and> length (py_str other (content message)) > 200)"

definition data_analysis_rule :: "(pystr \<Rightarrow> pystr) \<Rightarrow> (pyval \<Rightarrow> pystr) \<Rightarrow> RoutingRule" where
  "data_analysis_rule lower other =
     \<lparr>condition = has_keyword lower other data_analysis_keywords,
      target_agents = [ascii ''analyst''],
      strategy = SEQUENTIAL,
      priority = 10,
      description =
        [1040, 1085, 1072, 1083, 1080, 1079, 32, 1076, 1072, 1085, 1085, 1099, 1093] @
        ascii '' -> Data Analyst''\<rparr>"

definition code_generation_rule :: "(pystr \<Rightarrow> pystr) \<Rightarrow> (pyval \<Rightarrow> pystr) \<Rightarrow> RoutingRule" where
  "code_generation_rule lower other =
     \<lparr>condition = has_keyword lower other code_generation_keywords,
      target_agents = [ascii ''coder''],
      strategy = SEQUENTIAL,
      priority = 10,
      description =
        [1043, 1077, 1085, 1077, 1088, 1072, 1094, 1080, 1103, 32, 1082, 1086, 1076, 1072] @
        ascii '' -> Code Developer''\<rparr>"

definition code_review_rule :: "(pystr \<Rightarrow> pystr) \<Rightarrow> (pyval \<Rightarrow> pystr) \<Rightarrow> RoutingRule" where
  "code_review_rule lower other =
     \<lparr>condition = has_keyword lower other code_review_keywords,
      target_agents = [ascii ''reviewer''],
      strategy = SEQUENTIAL,
      priority = 9,
      description =
        [1056, 1077, 1074, 1100, 1102, 32, 1082, 1086, 1076, 1072] @
        ascii '' -> Code Reviewer''\<rparr>"

definition project_management_rule :: "(pystr \<Rightarrow> pystr) \<Rightarrow> (pyval \<Rightarrow> pystr) \<Rightarrow> RoutingRule" where
  "project_management_rule lower other =
     \<lparr>condition = has_keyword lower other project_management_keywords,
      target_agents = [ascii ''manager''],
      strategy = SEQUENTIAL,
      priority = 8,
      description =
        [1059, 1087, 1088, 1072, 1074, 1083, 1077, 1085, 1080, 1077, 32,
         1087, 1088, 1086, 1077, 1082, 1090, 1072, 1084, 1080] @
        ascii '' -> Project Manager''\<rparr>"

definition idea_generation_rule :: "(pystr \<Rightarrow> pystr) \<Rightarrow> (pyval \<Rightarrow> pystr) \<Rightarrow> RoutingRule" where
  "idea_generation_rule lower other =
     \<lparr>condition = has_keyword lower other idea_generation_keywords,
      target_agents = [ascii ''ideator''],
      strategy = SEQUENTIAL,
      priority = 7,
      description =
        [1043, 1077, 1085, 1077, 1088, 1072, 1094, 1080, 1103, 32, 1080, 1076, 1077, 1081] @
        ascii '' -> Idea Generator''\<rparr>"

definition quality_assessment_rule :: "(pystr \<Rightarrow> pystr) \<Rightarrow> (pyval \<Rightarrow> pystr) \<Rightarrow> RoutingRule" where
  "quality_assessment_rule lower other =
     \<lparr>condition = has_keyword lower other quality_assessment_keywords,
      target_agents = [ascii ''assessor''],
      strategy = SEQUENTIAL,
      priority = 6,
      description =
        [1054, 1094, 1077, 1085, 1082, 1072, 32,
         1082, 1072, 1095, 1077, 1089, 1090, 1074, 1072] @
        ascii '' -> Quality Assessor''\<rparr>"

definition complex_task_rule :: "(pyval \<Rightarrow> pystr) \<Rightarrow> RoutingRule" where
  "complex_task_rule other =
     \<lparr>condition = is_complex_task other,
      target_agents = [ascii ''analyst'', ascii ''coder'', ascii ''reviewer''],
      strategy = SEQUENTIAL,
      priority = 5,
      description =
        [1050, 1086, 1084, 1087, 1083, 1077, 1082, 1089, 1085, 1099, 1077, 32,
         1079, 1072, 1076, 1072, 1095, 1080] @
        ascii '' -> Analyst -> Coder -> Reviewer''\<rparr>"

definition default_rules :: "(pystr \<Rightarrow> pystr) \<Rightarrow> (pyval \<Rightarrow> pystr) \<Rightarrow> RoutingRule list" where
  \<comment> \<open>in the order in which \<open>add_default_routing_rules\<close> adds them\<close>
  "default_rules lower other =
     [data_analysis_rule lower other,
      code_generation_rule lower other,
      code_review_rule lower other,
      project_management_rule lower other,
      idea_generation_rule lower other,
      quality_assessment_rule lower other,
      complex_task_rule other]"

definition add_default_routing_rules ::
  "(pystr \<Rightarrow> pystr) \<Rightarrow> (pyval \<Rightarrow> pystr) \<Rightarrow> AgentRouter \<Rightarrow> AgentRouter" where
  "add_default_routing_rules lower other s =
     foldl add_routing_rule s (default_rules lower other)"

text \<open>Every keyword that some default rule looks for.\<close>

definition configured_keywords :: "pystr list" where
  "configured_keywords =
     data_analysis_keywords @ code_generation_keywords @ code_review_keywords @
     project_management_keywords @ idea_generation_keywords @ quality_assessment_keywords"

subsection \<open>Order of the rule list\<close>

definition descending :: "RoutingRule list \<Rightarrow> bool" where
  \<comment> \<open>non-increasing in priority from the first to the last element\<close>
  "descending rules = sorted_wrt (\<lambda>a b. priority b \<le> priority a) rules"

subsection \<open>Sample routers and messages\<close>

definition analyst_agent :: Agent where
  "analyst_agent =
     \<lparr>process = (\<lambda>c. Inr (PStr (ascii ''report''))),
      get_capabilities = [ascii ''data_analysis''],
      get_limitations = [ascii ''no_code'']\<rparr>"

definition RuntimeError :: exn where
  \<comment> \<open>\<open>RuntimeError("boom")\<close>\<close>
  "RuntimeError = Exn (ascii ''RuntimeError'') (ascii ''boom'') True"

definition broken_agent :: Agent where
  "broken_agent =
     \<lparr>process = (\<lambda>c. Inl RuntimeError),
      get_capabilities = [],
      get_limitations = []\<rparr>"

definition cancelled_agent :: Agent where
  \<comment> \<open>an agent whose \<open>process\<close> is cancelled while it is awaited\<close>
  "cancelled_agent =
     \<lparr>process = (\<lambda>c. Inl CancelledError),
      get_capabilities = [],
      get_limitations = []\<rparr>"

definition two_agents :: AgentRouter where
  "two_agents =
     register_agent (register_agent init_router (ascii ''analyst'') analyst_agent)
       (ascii ''coder'') broken_agent"

definition three_agents :: AgentRouter where
  "three_agents = register_agent two_agents (ascii ''worker'') cancelled_agent"

definition raising_rule :: "exn \<Rightarrow> RoutingStrategy \<Rightarrow> pystr list \<Rightarrow> int \<Rightarrow> RoutingRule" where
  \<comment> \<open>a rule whose condition raises \<open>e\<close> for every message\<close>
  "raising_rule e strat targets prio =
     \<lparr>condition = (\<lambda>m. Inl e), target_agents = targets, strategy = strat,
      priority = prio, description = []\<rparr>"

definition unchecked_message :: Message where
  \<comment> \<open>\<open>Message("m1", "user", [], 42, None)\<close>\<close>
  "unchecked_message =
     \<lparr>msg_id = ascii ''m1'', sender = ascii ''user'', recipients = [],
      message_type = Value (PInt 42), content = PNone, metadata = Map.empty,
      msg_priority = 0\<rparr>"

definition sample_rule :: "bool \<Rightarrow> RoutingStrategy \<Rightarrow> pystr list \<Rightarrow> int \<Rightarrow> RoutingRule" where
  \<comment> \<open>a rule whose condition answers \<open>b\<close> for every message\<close>
  "sample_rule b strat targets prio =
     \<lparr>condition = (\<lambda>m. Inr b), target_agents = targets, strategy = strat,
      priority = prio, description = []\<rparr>"

definition sample_message :: "pystr \<Rightarrow> pystr list \<Rightarrow> Message" where
  "sample_message sndr rcpts =
     \<lparr>msg_id = ascii ''m1'', sender = sndr, recipients = rcpts, message_type = Member TASK,
      content = PStr (ascii ''hello''), metadata = Map.empty, msg_priority = 0\<rparr>"

definition stopped_clock :: "nat \<Rightarrow> real" where
  \<comment> \<open>every reading of the elapsed time is zero\<close>
  "stopped_clock k = 0"

definition no_metadata :: "pystr \<rightharpoonup> pyval" where
  "no_metadata = Map.empty"

lemmas sample_defs = two_agents_def three_agents_def register_agent_def init_router_def
  add_routing_rule_def sample_rule_def raising_rule_def sample_message_def analyst_agent_def
  broken_agent_def cancelled_agent_def RuntimeError_def CancelledError_def ascii_def

section \<open>Properties\<close>

subsection \<open>The matching rules\<close>

lemma matching_rules_filter:
  "matching_rules rs m = Inr ms \<Longrightarrow> ms = filter (\<lambda>q. condition q m = Inr True) rs"
  by (induction rs arbitrary: ms) (auto split: sum.splits if_splits)

lemma matching_rules_no_match:
  "\<forall>r\<in>set rs. condition r m = Inr False \<Longrightarrow> matching_rules rs m = Inr []"
  by (induction rs) auto

lemma matching_rules_first:
  "matching_rules rs m = Inr (rule # rest) \<Longrightarrow>
     \<exists>before after. rs = before @ rule # after \<and>
       (\<forall>q\<in>set before. condition q m = Inr False) \<and> condition rule m = Inr True"
proof (induction rs arbitrary: rest)
  case Nil
  then show ?case by simp
next
  case (Cons r rs)
  from Cons.prems obtain b ms where b: "condition r m = Inr b" and ms: "matching_rules rs m = Inr ms"
    and eq: "(if b then r # ms else ms) = rule # rest"
    by (auto split: sum.splits)
  show ?case
  proof (cases b)
    case True
    with eq b have "r = rule" by simp
    with True b show ?thesis by (intro exI[of _ "[]"] exI[of _ rs]) simp
  next
    case False
    with eq ms have "matching_rules rs m = Inr (rule # rest)" by simp
    from Cons.IH[OF this] obtain before after where
      "rs = before @ rule # after" "\<forall>q\<in>set before. condition q m = Inr False" "condition rule m = Inr True"
      by blast
    with False b show ?thesis
      by (intro exI[of _ "r # before"] exI[of _ after]) simp
  qed
qed

lemma matching_rules_all_return:
  "\<forall>q\<in>set rs. \<exists>b. condition q m = Inr b \<Longrightarrow>
     matching_rules rs m = Inr (filter (\<lambda>q. condition q m = Inr True) rs)"
  by (induction rs) auto

lemma matching_rules_raises:
  "(\<forall>p\<in>set before. \<exists>b. condition p m = Inr b) \<Longrightarrow> condition q m = Inl e \<Longrightarrow>
     matching_rules (before @ q # after) m = Inl e"
  by (induction before) auto

lemma first_match_highest:
  assumes "matching_rules rs m = Inr (rule # rest)" and "descending rs"
    and "q \<in> set rs" and "condition q m = Inr True"
  shows "priority q \<le> priority rule"
proof -
  let ?ms = "filter (\<lambda>q. condition q m = Inr True) rs"
  have eq: "rule # rest = ?ms" using assms(1) by (rule matching_rules_filter)
  have "sorted_wrt (\<lambda>a b. priority b \<le> priority a) ?ms"
    using assms(2) unfolding descending_def by (rule sorted_wrt_filter)
  with eq have "\<forall>x\<in>set rest. priority x \<le> priority rule" by (metis sorted_wrt.simps(2))
  moreover have "q \<in> set (rule # rest)" using assms(3,4) eq by simp
  ultimately show ?thesis by auto
qed

subsection \<open>The sequential loop\<close>

lemma sequential_loop_length:
  "length (sequential_loop m n i as routed) = length routed + length as"
  by (induction as arbitrary: i routed) auto

lemma sequential_loop_extends:
  "\<exists>ext. sequential_loop m n i as routed = routed @ ext"
proof (induction as arbitrary: i routed)
  case Nil
  show ?case by simp
next
  case (Cons a as)
  from Cons.IH[of "i + 1" "routed @ [sequential_message m n i a routed]"]
  show ?case by auto
qed

lemma sequential_loop_nth:
  "k < length as \<Longrightarrow>
     sequential_loop m n i as routed ! (length routed + k) =
       sequential_message m n (i + k) (as ! k)
         (take (length routed + k) (sequential_loop m n i as routed))"
proof (induction as arbitrary: i routed k)
  case Nil
  then show ?case by simp
next
  case (Cons a as)
  let ?new = "sequential_message m n i a routed"
  show ?case
  proof (cases k)
    case 0
    obtain ext where ext: "sequential_loop m n (i + 1) as (routed @ [?new]) = (routed @ [?new]) @ ext"
      using sequential_loop_extends by blast
    show ?thesis using 0 ext by simp
  next
    case (Suc j)
    with Cons.prems have j: "j < length as" by simp
    from Cons.IH[OF j, of "i + 1" "routed @ [?new]"] show ?thesis
      using Suc by simp
  qed
qed

subsection \<open>Sequential expansion\<close>

text \<open>
  C2: when the firing rule (the first rule of the list whose condition holds) has strategy
  sequential and \<open>N\<close> of its targets are registered, \<open>route_message\<close> returns \<open>N\<close>
  messages; the message at index \<open>k\<close> (the \<open>k+1\<close>-th) has id
  \<open>{original_id}_to_{agent_id}\<close> for the \<open>k\<close>-th registered target, that agent as its only
  recipient, \<open>step = k + 1\<close>, \<open>total_steps = N\<close>, and \<open>previous_results\<close> equal to the
  contents of the \<open>k\<close> derived messages built before it in the same call.
\<close>

theorem sequential_expansion:
  assumes "matching_rules (routing_rules s) m = Inr (rule # rest)"
    and "strategy rule = SEQUENTIAL"
  shows "\<exists>out. fst (route_message s m) = Inr out \<and>
    length out = length (available_agents (agents s) rule) \<and>
    (\<forall>k < length (available_agents (agents s) rule).
       msg_id (out ! k) = msg_id m @ ascii ''_to_'' @ available_agents (agents s) rule ! k \<and>
       recipients (out ! k) = [available_agents (agents s) rule ! k] \<and>
       metadata (out ! k) (ascii ''step'') = Some (PInt (int k + 1)) \<and>
       metadata (out ! k) (ascii ''total_steps'') =
         Some (PInt (int (length (available_agents (agents s) rule)))) \<and>
       metadata (out ! k) (ascii ''previous_results'') =
         Some (PList (map content (take k out))))"
proof -
  let ?avail = "available_agents (agents s) rule"
  let ?n = "length ?avail"
  let ?out = "sequential_loop m ?n 0 ?avail []"
  have routed: "fst (route_message s m) = Inr ?out"
    using assms by (cases "?avail = []") (simp_all add: route_message_def Let_def)
  have keys: "ascii ''step'' \<noteq> ascii ''total_steps''" "ascii ''step'' \<noteq> ascii ''previous_results''"
    "ascii ''total_steps'' \<noteq> ascii ''previous_results''"
    by (simp_all add: ascii_def)
  have len: "length ?out = ?n"
    by (simp add: sequential_loop_length)
  have each: "msg_id (?out ! k) = msg_id m @ ascii ''_to_'' @ ?avail ! k \<and>
      recipients (?out ! k) = [?avail ! k] \<and>
      metadata (?out ! k) (ascii ''step'') = Some (PInt (int k + 1)) \<and>
      metadata (?out ! k) (ascii ''total_steps'') = Some (PInt (int ?n)) \<and>
      metadata (?out ! k) (ascii ''previous_results'') = Some (PList (map content (take k ?out)))"
    if k: "k < ?n" for k
  proof -
    have nth: "?out ! k = sequential_message m ?n k (?avail ! k) (take k ?out)"
      using sequential_loop_nth[OF k, of m ?n 0 "[]"] by simp
    show ?thesis
      by (subst nth, simp add: sequential_message_def keys)+
  qed
  from routed len each show ?thesis by blast
qed

theorem sequential_expansion_witness:
  "matching_rules
     (routing_rules (add_routing_rule two_agents
        (sample_rule True SEQUENTIAL [ascii ''analyst'', ascii ''ghost'', ascii ''coder''] 10)))
     (sample_message (ascii ''user'') []) =
       Inr [sample_rule True SEQUENTIAL [ascii ''analyst'', ascii ''ghost'', ascii ''coder''] 10] \<and>
   strategy (sample_rule True SEQUENTIAL [ascii ''analyst'', ascii ''ghost'', ascii ''coder''] 10)
     = SEQUENTIAL \<and>
   (\<exists>out.
      fst (route_message
        (add_routing_rule two_agents
           (sample_rule True SEQUENTIAL [ascii ''analyst'', ascii ''ghost'', ascii ''coder''] 10))
        (sample_message (ascii ''user'') [])) = Inr out \<and>
      length out = 2 \<and>
      msg_id (out ! 1) = ascii ''m1_to_coder'' \<and>
      metadata (out ! 1) (ascii ''step'') = Some (PInt 2) \<and>
      metadata (out ! 1) (ascii ''total_steps'') = Some (PInt 2) \<and>
      metadata (out ! 1) (ascii ''previous_results'') = Some (PList [PStr (ascii ''hello'')]))"
proof -
  let ?rule = "sample_rule True SEQUENTIAL [ascii ''analyst'', ascii ''ghost'', ascii ''coder''] 10"
  let ?s = "add_routing_rule two_agents ?rule"
  let ?m = "sample_message (ascii ''user'') []"
  have h1: "matching_rules (routing_rules ?s) ?m = Inr (?rule # [])"
    by (simp add: sample_defs)
  have h2: "strategy ?rule = SEQUENTIAL"
    by (simp add: sample_defs)
  have av: "available_agents (agents ?s) ?rule = [ascii ''analyst'', ascii ''coder'']"
    by (simp add: sample_defs available_agents_def)
  from sequential_expansion[OF h1 h2] obtain out where
    out: "fst (route_message ?s ?m) = Inr out" and
    len: "length out = length (available_agents (agents ?s) ?rule)" and
    every: "\<forall>k < length (available_agents (agents ?s) ?rule).
       msg_id (out ! k) = msg_id ?m @ ascii ''_to_'' @ available_agents (agents ?s) ?rule ! k \<and>
       recipients (out ! k) = [available_agents (agents ?s) ?rule ! k] \<and>
       metadata (out ! k) (ascii ''step'') = Some (PInt (int k + 1)) \<and>
       metadata (out ! k) (ascii ''total_steps'') =
         Some (PInt (int (length (available_agents (agents ?s) ?rule)))) \<and>
       metadata (out ! k) (ascii ''previous_results'') =
         Some (PList (map content (take k out)))"
    by blast
  have two: "length (available_agents (agents ?s) ?rule) = 2"
    by (simp add: av)
  have len2: "length out = 2"
    using len two by (rule trans)
  from spec[OF every, of 1] two have at1:
    "msg_id (out ! 1) = msg_id ?m @ ascii ''_to_'' @ available_agents (agents ?s) ?rule ! 1"
    "metadata (out ! 1) (ascii ''step'') = Some (PInt (int 1 + 1))"
    "metadata (out ! 1) (ascii ''total_steps'') =
       Some (PInt (int (length (available_agents (agents ?s) ?rule))))"
    "metadata (out ! 1) (ascii ''previous_results'') = Some (PList (map content (take 1 out)))"
    by simp_all
  have "fst (route_message ?s ?m) =
      Inr (sequential_loop ?m (Suc (Suc 0)) 0 [ascii ''analyst'', ascii ''coder''] [])"
    using h1 h2 by (simp add: route_message_def Let_def av)
  with out have concrete: "out = sequential_loop ?m (Suc (Suc 0)) 0 [ascii ''analyst'', ascii ''coder''] []"
    by simp
  have previous: "map content (take 1 out) = [PStr (ascii ''hello'')]"
    unfolding concrete by (simp add: sequential_message_def sample_message_def)
  have id1: "msg_id ?m @ ascii ''_to_'' @ available_agents (agents ?s) ?rule ! 1 =
      ascii ''m1_to_coder''"
    unfolding av by (simp add: sample_message_def ascii_def)
  have c1: "msg_id (out ! 1) = ascii ''m1_to_coder''"
    using at1(1) id1 by (rule trans)
  have c2: "metadata (out ! 1) (ascii ''step'') = Some (PInt 2)"
    using at1(2) by simp
  have c3: "metadata (out ! 1) (ascii ''total_steps'') = Some (PInt 2)"
    using at1(3) unfolding two by simp
  have c4: "metadata (out ! 1) (ascii ''previous_results'') = Some (PList [PStr (ascii ''hello'')])"
    using at1(4) unfolding previous .
  show ?thesis
    by (intro conjI exI[of _ out]) (rule h1 h2 out len2 c1 c2 c3 c4)+
qed

subsection \<open>The firing rule\<close>

lemma sequential_loop_recipients:
  "map recipients (sequential_loop m n i as routed) = map recipients routed @ map (\<lambda>a. [a]) as"
  by (induction as arbitrary: i routed) (simp_all add: sequential_message_def)

lemma expand_recipients:
  assumes "strategy rule \<noteq> BROADCAST" and "d \<in> set (expand ags rule (available_agents ags rule) m)"
  shows "\<exists>a\<in>set (target_agents rule). recipients d = [a]"
proof -
  have av: "set (available_agents ags rule) \<subseteq> set (target_agents rule)"
    by (auto simp: available_agents_def)
  from assms(2) have "recipients d \<in> set (map recipients (expand ags rule (available_agents ags rule) m))"
    by simp
  also have "set (map recipients (expand ags rule (available_agents ags rule) m))
      \<subseteq> (\<lambda>a. [a]) ` set (available_agents ags rule)"
    using assms(1)
    by (cases "strategy rule") (auto simp: sequential_loop_recipients parallel_message_def)
  finally show ?thesis using av by auto
qed

lemma firing_rule_expansion:
  assumes "matching_rules (routing_rules s) m = Inr (rule # rest)"
  shows "fst (route_message s m) =
      Inr (if available_agents (agents s) rule = [] then []
           else expand (agents s) rule (available_agents (agents s) rule) m)"
  using assms by (simp add: route_message_def Let_def del: expand.simps)

text \<open>A condition that raises ends the routing: no rule is applied.\<close>

lemma route_message_condition_raises:
  assumes "routing_rules s = before @ q # after"
    and "\<forall>p\<in>set before. \<exists>b. condition p m = Inr b"
    and "condition q m = Inl e"
  shows "route_message s m = (if is_Exception e then (Inr [], count_error s) else (Inl e, s))"
  using matching_rules_raises[OF assms(2,3), of after] assms(1)
  by (simp add: route_message_def)

text \<open>
  C8: when every rule's condition returns for the message and at least one holds,
  \<open>route_message\<close> applies the first rule of the router's list whose condition holds and
  no other: it returns the expansion of that one rule, so unless it is a broadcast rule
  every derived message is addressed to one of its targets. On a rule list that is
  non-increasing in priority, no matching rule has a higher priority than it.
\<close>

theorem first_match_fires:
  assumes "\<forall>q\<in>set (routing_rules s). \<exists>b. condition q m = Inr b"
    and "\<exists>q\<in>set (routing_rules s). condition q m = Inr True"
  shows "\<exists>before rule after.
    routing_rules s = before @ rule # after \<and>
    (\<forall>q\<in>set before. condition q m = Inr False) \<and> condition rule m = Inr True \<and>
    fst (route_message s m) =
      Inr (if available_agents (agents s) rule = [] then []
           else expand (agents s) rule (available_agents (agents s) rule) m) \<and>
    (strategy rule \<noteq> BROADCAST \<longrightarrow>
       (\<forall>out. fst (route_message s m) = Inr out \<longrightarrow>
          (\<forall>d\<in>set out. \<exists>a\<in>set (target_agents rule). recipients d = [a]))) \<and>
    (descending (routing_rules s) \<longrightarrow>
       (\<forall>q\<in>set (routing_rules s). condition q m = Inr True \<longrightarrow> priority q \<le> priority rule))"
proof -
  let ?ms = "filter (\<lambda>q. condition q m = Inr True) (routing_rules s)"
  have all: "matching_rules (routing_rules s) m = Inr ?ms"
    using assms(1) by (rule matching_rules_all_return)
  from assms(2) have "?ms \<noteq> []"
    by (simp add: filter_empty_conv)
  then obtain rule rest where ms: "?ms = rule # rest"
    by (cases ?ms) auto
  with all have firing: "matching_rules (routing_rules s) m = Inr (rule # rest)"
    by simp
  have fired: "fst (route_message s m) =
      Inr (if available_agents (agents s) rule = [] then []
           else expand (agents s) rule (available_agents (agents s) rule) m)"
    using firing by (rule firing_rule_expansion)
  have targets: "\<exists>a\<in>set (target_agents rule). recipients d = [a]"
    if "strategy rule \<noteq> BROADCAST" and "fst (route_message s m) = Inr out" and "d \<in> set out"
    for out d
    using that expand_recipients[of rule d "agents s" m]
    by (cases "available_agents (agents s) rule = []") (simp_all add: fired del: expand.simps)
  from matching_rules_first[OF firing] obtain before after where
    "routing_rules s = before @ rule # after"
    "\<forall>q\<in>set before. condition q m = Inr False" "condition rule m = Inr True"
    by blast
  with fired targets first_match_highest[OF firing] show ?thesis
    by blast
qed

text \<open>
  The condition on the other rules is needed. With a rule of priority 10 whose condition
  holds and a rule of priority 1 whose condition raises, the message is matched by the
  first rule, whose expansion is one message for the coder; \<open>route_message\<close> returns the
  empty list and counts an error.
\<close>

theorem raising_rule_stops_routing:
  "routing_rules
     (add_routing_rule
        (add_routing_rule two_agents (sample_rule True SEQUENTIAL [ascii ''coder''] 10))
        (raising_rule RuntimeError PARALLEL [ascii ''analyst''] 1)) =
     [sample_rule True SEQUENTIAL [ascii ''coder''] 10,
      raising_rule RuntimeError PARALLEL [ascii ''analyst''] 1] \<and>
   condition (sample_rule True SEQUENTIAL [ascii ''coder''] 10)
     (sample_message (ascii ''user'') []) = Inr True \<and>
   map recipients
     (expand (agents two_agents) (sample_rule True SEQUENTIAL [ascii ''coder''] 10)
        (available_agents (agents two_agents) (sample_rule True SEQUENTIAL [ascii ''coder''] 10))
        (sample_message (ascii ''user'') [])) = [[ascii ''coder'']] \<and>
   fst (route_message
     (add_routing_rule
        (add_routing_rule two_agents (sample_rule True SEQUENTIAL [ascii ''coder''] 10))
        (raising_rule RuntimeError PARALLEL [ascii ''analyst''] 1))
     (sample_message (ascii ''user'') [])) = Inr [] \<and>
   errors (stats (snd (route_message
     (add_routing_rule
        (add_routing_rule two_agents (sample_rule True SEQUENTIAL [ascii ''coder''] 10))
        (raising_rule RuntimeError PARALLEL [ascii ''analyst''] 1))
     (sample_message (ascii ''user'') [])))) = 1"
  by (simp add: sample_defs route_message_def available_agents_def count_error_def
      sequential_message_def)

theorem first_match_fires_witness:
  "list_all (\<lambda>q. \<exists>b. condition q (sample_message (ascii ''user'') []) = Inr b)
     (routing_rules
        (add_routing_rule
           (add_routing_rule two_agents (sample_rule True PARALLEL [ascii ''analyst''] 5))
           (sample_rule True SEQUENTIAL [ascii ''coder''] 10))) \<and>
   list_ex (\<lambda>q. condition q (sample_message (ascii ''user'') []) = Inr True)
     (routing_rules
        (add_routing_rule
           (add_routing_rule two_agents (sample_rule True PARALLEL [ascii ''analyst''] 5))
           (sample_rule True SEQUENTIAL [ascii ''coder''] 10))) \<and>
   descending
     (routing_rules
        (add_routing_rule
           (add_routing_rule two_agents (sample_rule True PARALLEL [ascii ''analyst''] 5))
           (sample_rule True SEQUENTIAL [ascii ''coder''] 10))) \<and>
   (\<exists>rule.
      priority rule = 10 \<and> strategy rule \<noteq> BROADCAST \<and>
      fst (route_message
        (add_routing_rule
           (add_routing_rule two_agents (sample_rule True PARALLEL [ascii ''analyst''] 5))
           (sample_rule True SEQUENTIAL [ascii ''coder''] 10))
        (sample_message (ascii ''user'') [])) =
      Inr (expand (agents two_agents) rule [ascii ''coder''] (sample_message (ascii ''user'') [])))"
proof -
  let ?low = "sample_rule True PARALLEL [ascii ''analyst''] 5"
  let ?high = "sample_rule True SEQUENTIAL [ascii ''coder''] 10"
  let ?s = "add_routing_rule (add_routing_rule two_agents ?low) ?high"
  let ?m = "sample_message (ascii ''user'') []"
  have rules: "routing_rules ?s = [?high, ?low]"
    by (simp add: sample_defs)
  have h1: "\<forall>q\<in>set (routing_rules ?s). \<exists>b. condition q ?m = Inr b"
    unfolding rules by (auto simp: sample_rule_def)
  have h2: "\<exists>q\<in>set (routing_rules ?s). condition q ?m = Inr True"
    unfolding rules by (simp add: sample_rule_def)
  have h3: "descending (routing_rules ?s)"
    unfolding rules by (simp add: descending_def sample_rule_def)
  have ags: "agents ?s = agents two_agents"
    by (simp add: add_routing_rule_def)
  from first_match_fires[OF h1 h2] obtain before rule after where
    split: "routing_rules ?s = before @ rule # after" and
    before: "\<forall>q\<in>set before. condition q ?m = Inr False" and
    fired: "fst (route_message ?s ?m) =
      Inr (if available_agents (agents ?s) rule = [] then []
           else expand (agents ?s) rule (available_agents (agents ?s) rule) ?m)"
    by blast
  have "before = []"
  proof (cases before)
    case Nil
    then show ?thesis .
  next
    case (Cons q qs)
    with split rules have "q = ?high" by simp
    moreover from Cons before have "condition q ?m = Inr False" by simp
    ultimately show ?thesis by (simp add: sample_rule_def)
  qed
  with split rules have rule: "rule = ?high"
    by simp
  have av: "available_agents (agents two_agents) ?high = [ascii ''coder'']"
    by (simp add: sample_defs available_agents_def)
  from fired have "fst (route_message ?s ?m) = Inr (expand (agents two_agents) rule [ascii ''coder''] ?m)"
    unfolding rule ags by (simp only: av) simp
  moreover have "priority rule = 10" "strategy rule \<noteq> BROADCAST"
    unfolding rule by (simp_all add: sample_rule_def)
  ultimately have "\<exists>rule. priority rule = 10 \<and> strategy rule \<noteq> BROADCAST \<and>
      fst (route_message ?s ?m) = Inr (expand (agents two_agents) rule [ascii ''coder''] ?m)"
    by blast
  with h1 h2 h3 show ?thesis
    by (simp add: list_all_iff list_ex_iff)
qed

subsection \<open>Conditional rules\<close>



subsection \<open>Broadcast rules\<close>

text \<open>
  C1: a broadcast rule is meant to reach every registered agent whatever its own target
  list holds. The check on the available agents comes before the strategy is looked at,
  so a broadcast rule with an empty target list (the rule of
  \<open>test_routing_strategies\<close>) derives no message although two agents are registered.
\<close>

theorem broadcast_rule_with_empty_targets:
  "map fst (agents (add_routing_rule two_agents (sample_rule True BROADCAST [] 8))) =
     [ascii ''analyst'', ascii ''coder''] \<and>
   matching_rules (routing_rules (add_routing_rule two_agents (sample_rule True BROADCAST [] 8)))
     (sample_message (ascii ''user'') []) = Inr [sample_rule True BROADCAST [] 8] \<and>
   fst (route_message (add_routing_rule two_agents (sample_rule True BROADCAST [] 8))
     (sample_message (ascii ''user'') [])) = Inr []"
  by (simp add: sample_defs route_message_def available_agents_def)

text \<open>Past that check the expansion is as intended: one message per registered agent.\<close>

lemma broadcast_expansion:
  assumes "matching_rules (routing_rules s) m = Inr (rule # rest)"
    and "strategy rule = BROADCAST"
    and "available_agents (agents s) rule \<noteq> []"
  shows "fst (route_message s m) = Inr (map (broadcast_message m) (map fst (agents s)))"
  using assms by (simp add: route_message_def Let_def)

subsection \<open>Routing misses\<close>

lemma set_rules_add: "set (routing_rules (add_routing_rule s r)) = insert r (set (routing_rules s))"
  by (simp add: add_routing_rule_def)

lemma set_rules_foldl:
  "set (routing_rules (foldl add_routing_rule s rs)) = set (routing_rules s) \<union> set rs"
  by (induction rs arbitrary: s) (auto simp: set_rules_add)

lemma has_keyword_False:
  assumes "\<forall>k\<in>set ks. \<not> contains k (lower (py_str other (content m)))"
  shows "has_keyword lower other ks m = Inr False"
  using assms by (simp add: has_keyword_def list_ex_iff)

lemma default_rules_silent:
  assumes "\<forall>k\<in>set configured_keywords. \<not> contains k (lower (py_str other (content m)))"
    and "length (py_str other (content m)) \<le> 200"
    and "r \<in> set (default_rules lower other)"
  shows "condition r m = Inr False"
proof -
  have sub: "has_keyword lower other ks m = Inr False"
    if "set ks \<subseteq> set configured_keywords" for ks
    using that assms(1) by (intro has_keyword_False) blast
  have kw: "has_keyword lower other data_analysis_keywords m = Inr False"
    "has_keyword lower other code_generation_keywords m = Inr False"
    "has_keyword lower other code_review_keywords m = Inr False"
    "has_keyword lower other project_management_keywords m = Inr False"
    "has_keyword lower other idea_generation_keywords m = Inr False"
    "has_keyword lower other quality_assessment_keywords m = Inr False"
    by (rule sub, simp add: configured_keywords_def, blast?)+
  have cx: "is_complex_task other m = Inr False"
    using assms(2) by (simp add: is_complex_task_def)
  from assms(3) show ?thesis
    unfolding default_rules_def
    by (auto simp: kw cx data_analysis_rule_def code_generation_rule_def code_review_rule_def
        project_management_rule_def idea_generation_rule_def quality_assessment_rule_def
        complex_task_rule_def)
qed

lemma rules_foldl_cong:
  "routing_rules s = routing_rules s' \<Longrightarrow>
     routing_rules (foldl add_routing_rule s rs) = routing_rules (foldl add_routing_rule s' rs)"
proof (induction rs arbitrary: s s')
  case Nil
  then show ?case by simp
next
  case (Cons r rs)
  have "routing_rules (add_routing_rule s r) = routing_rules (add_routing_rule s' r)"
    using Cons.prems by (simp add: add_routing_rule_def)
  from Cons.IH[OF this] show ?case by simp
qed

text \<open>
  C4: \<open>route_message\<close> returns the empty list, leaves the router as it was (no error is
  counted) and raises nothing when no rule matches the message, or when none of the
  firing rule's targets is registered; in particular with the default rules, when the
  text of the content holds none of the configured keywords (the rules search the
  lower-cased text, so the match is case-insensitive) and has at most 200 characters.
\<close>

theorem routing_miss:
  "((\<forall>r\<in>set (routing_rules s). condition r m = Inr False) \<longrightarrow>
      route_message s m = (Inr [], s)) \<and>
   (\<forall>rule rest.
      matching_rules (routing_rules s) m = Inr (rule # rest) \<and>
      (\<forall>a\<in>set (target_agents rule). a \<notin> fst ` set (agents s)) \<longrightarrow>
        route_message s m = (Inr [], s)) \<and>
   (routing_rules s = routing_rules (add_default_routing_rules lower other init_router) \<and>
    (\<forall>k\<in>set configured_keywords. \<not> contains k (lower (py_str other (content m)))) \<and>
    length (py_str other (content m)) \<le> 200 \<longrightarrow>
      route_message s m = (Inr [], s))"
proof (intro conjI allI impI)
  assume "\<forall>r\<in>set (routing_rules s). condition r m = Inr False"
  then show "route_message s m = (Inr [], s)"
    by (simp add: route_message_def matching_rules_no_match)
next
  fix rule rest
  assume h: "matching_rules (routing_rules s) m = Inr (rule # rest) \<and>
      (\<forall>a\<in>set (target_agents rule). a \<notin> fst ` set (agents s))"
  then have "available_agents (agents s) rule = []"
    by (simp add: available_agents_def)
  with h show "route_message s m = (Inr [], s)"
    by (simp add: route_message_def)
next
  assume h: "routing_rules s = routing_rules (add_default_routing_rules lower other init_router) \<and>
    (\<forall>k\<in>set configured_keywords. \<not> contains k (lower (py_str other (content m)))) \<and>
    length (py_str other (content m)) \<le> 200"
  then have "set (routing_rules s) = set (default_rules lower other)"
    by (simp add: add_default_routing_rules_def set_rules_foldl init_router_def)
  with h have "\<forall>r\<in>set (routing_rules s). condition r m = Inr False"
    using default_rules_silent by blast
  then show "route_message s m = (Inr [], s)"
    by (simp add: route_message_def matching_rules_no_match)
qed

theorem routing_miss_witness:
  "list_all (\<lambda>r. condition r (sample_message (ascii ''user'') []) = Inr False)
     (routing_rules (add_routing_rule two_agents (sample_rule False SEQUENTIAL [ascii ''analyst''] 1))) \<and>
   fst (route_message
     (add_routing_rule two_agents (sample_rule False SEQUENTIAL [ascii ''analyst''] 1))
     (sample_message (ascii ''user'') [])) = Inr [] \<and>
   matching_rules
     (routing_rules (add_routing_rule two_agents (sample_rule True PARALLEL [ascii ''ghost''] 1)))
     (sample_message (ascii ''user'') []) = Inr [sample_rule True PARALLEL [ascii ''ghost''] 1] \<and>
   list_all (\<lambda>a. a \<notin> fst ` set (agents (add_routing_rule two_agents (sample_rule True PARALLEL [ascii ''ghost''] 1))))
     (target_agents (sample_rule True PARALLEL [ascii ''ghost''] 1)) \<and>
   fst (route_message
     (add_routing_rule two_agents (sample_rule True PARALLEL [ascii ''ghost''] 1))
     (sample_message (ascii ''user'') [])) = Inr [] \<and>
   routing_rules (add_default_routing_rules (\<lambda>x. x) (\<lambda>v. []) two_agents) =
     routing_rules (add_default_routing_rules (\<lambda>x. x) (\<lambda>v. []) init_router) \<and>
   list_all (\<lambda>k. \<not> contains k (py_str (\<lambda>v. []) (content (sample_message (ascii ''user'') []))))
     configured_keywords \<and>
   length (py_str (\<lambda>v. []) (content (sample_message (ascii ''user'') []))) \<le> 200 \<and>
   fst (route_message (add_default_routing_rules (\<lambda>x. x) (\<lambda>v. []) two_agents)
     (sample_message (ascii ''user'') [])) = Inr []"
proof -
  let ?m = "sample_message (ascii ''user'') []"
  let ?sa = "add_routing_rule two_agents (sample_rule False SEQUENTIAL [ascii ''analyst''] 1)"
  let ?rb = "sample_rule True PARALLEL [ascii ''ghost''] 1"
  let ?sb = "add_routing_rule two_agents ?rb"
  let ?sc = "add_default_routing_rules (\<lambda>x. x) (\<lambda>v. []) two_agents"
  have a: "\<forall>r\<in>set (routing_rules ?sa). condition r ?m = Inr False"
    by (simp add: sample_defs)
  have b1: "matching_rules (routing_rules ?sb) ?m = Inr (?rb # [])"
    by (simp add: sample_defs)
  have b2: "\<forall>a\<in>set (target_agents ?rb). a \<notin> fst ` set (agents ?sb)"
    by (simp add: sample_defs)
  have c1: "routing_rules ?sc = routing_rules (add_default_routing_rules (\<lambda>x. x) (\<lambda>v. []) init_router)"
    unfolding add_default_routing_rules_def
    by (rule rules_foldl_cong) (simp add: sample_defs)
  have hello: "py_str (\<lambda>v. []) (content ?m) = ascii ''hello''"
    by (simp add: sample_message_def py_str_def)
  have c2: "\<forall>k\<in>set configured_keywords. \<not> contains k ((\<lambda>x. x) (py_str (\<lambda>v. []) (content ?m)))"
    unfolding hello
    by (simp add: configured_keywords_def data_analysis_keywords_def code_generation_keywords_def
        code_review_keywords_def project_management_keywords_def idea_generation_keywords_def
        quality_assessment_keywords_def ascii_def)
  have c3: "length (py_str (\<lambda>v. []) (content ?m)) \<le> 200"
    unfolding hello by (simp add: ascii_def)
  from routing_miss[of ?sa ?m] a have ra: "route_message ?sa ?m = (Inr [], ?sa)"
    by blast
  from routing_miss[of ?sb ?m] b1 b2 have rb: "route_message ?sb ?m = (Inr [], ?sb)"
    by blast
  from routing_miss[of ?sc ?m "\<lambda>x. x" "\<lambda>v. []"] c1 c2 c3 have rc: "route_message ?sc ?m = (Inr [], ?sc)"
    by blast
  show ?thesis
    using a b1 b2 c1 c2 c3 by (simp add: ra rb rc list_all_iff)
qed

subsection \<open>Processing a message\<close>

lemma response_keys:
  "ascii ''original_message_id'' \<noteq> ascii ''processing_time''"
  "ascii ''original_message_id'' \<noteq> ascii ''agent_capabilities''"
  "ascii ''original_message_id'' \<noteq> ascii ''agent_limitations''"
  "ascii ''original_message_id'' \<noteq> ascii ''error_type''"
  "ascii ''processing_time'' \<noteq> ascii ''agent_capabilities''"
  "ascii ''processing_time'' \<noteq> ascii ''agent_limitations''"
  "ascii ''processing_time'' \<noteq> ascii ''error_type''"
  "ascii ''agent_capabilities'' \<noteq> ascii ''agent_limitations''"
  "ascii ''error_type'' \<noteq> ascii ''processing_time''"
  by (simp_all add: ascii_def)

lemma run_agent_cases:
  "recipients m = [] \<Longrightarrow> run_agent s m = Inl IndexError"
  "recipients m = a # rest \<Longrightarrow> map_of (agents s) a = None \<Longrightarrow>
     run_agent s m = Inl (ValueError (agent_not_found a))"
  "recipients m = a # rest \<Longrightarrow> map_of (agents s) a = Some ag \<Longrightarrow>
     process ag (content m) = Inl e \<Longrightarrow> run_agent s m = Inl e"
  "recipients m = a # rest \<Longrightarrow> map_of (agents s) a = Some ag \<Longrightarrow>
     process ag (content m) = Inr res \<Longrightarrow> run_agent s m = Inr (a, ag, res)"
  by (simp_all add: run_agent_def)

lemma process_message_failure:
  assumes "run_agent s m = Inl e" and "is_Exception e"
  shows "process_message s elapsed m = (Inr (error_response m e (elapsed 0)), count_error s)"
  using assms by (simp add: process_message_def)

lemma process_message_propagates:
  assumes "run_agent s m = Inl e" and "\<not> is_Exception e"
  shows "process_message s elapsed m = (Inl e, s)"
  using assms by (simp add: process_message_def)

lemma process_message_success:
  assumes "run_agent s m = Inr (a, ag, res)"
  shows "process_message s elapsed m =
           (Inr (response m a ag res (elapsed 0)), count_processed s (elapsed 1))"
  using assms by (simp add: process_message_def)

lemma run_agent_raises:
  assumes "run_agent s m = Inl e"
  shows "e = IndexError \<or> (\<exists>a. e = ValueError (agent_not_found a)) \<or>
    (\<exists>a rest ag. recipients m = a # rest \<and> map_of (agents s) a = Some ag \<and>
       process ag (content m) = Inl e)"
  using assms by (auto simp: run_agent_def split: list.splits option.splits sum.splits)

lemma error_response_fields:
  "message_type (error_response m e t) = Member ERROR"
  "content (error_response m e t) = PStr (error_prefix @ exn_str e)"
  "metadata (error_response m e t) (ascii ''original_message_id'') = Some (PStr (msg_id m))"
  "metadata (error_response m e t) (ascii ''error_type'') = Some (PStr (exn_type e))"
  "sender (error_response m e t) =
     (case recipients m of [] \<Rightarrow> ascii ''system'' | agent_id # _ \<Rightarrow> agent_id)"
  by (simp_all add: error_response_def response_keys)

text \<open>
  C3: \<open>process_message\<close> raises no \<open>Exception\<close> to its caller. When the recipient list
  is empty, when the first recipient is not a registered agent, or when the agent's
  \<open>process\<close> raises an \<open>Exception\<close>, it returns a message of kind ERROR that carries the
  original id in its metadata and the text of the exception in its content, and the
  \<open>errors\<close> counter is one higher; with an empty recipient list the sender is \<open>system\<close>.
  An exception of the agent's \<open>process\<close> that is no \<open>Exception\<close> leaves the call, and the
  router stays as it was.
\<close>

theorem process_message_errors:
  "(\<forall>e. fst (process_message s elapsed m) = Inl e \<longrightarrow> \<not> is_Exception e) \<and>
   (\<forall>r. fst (process_message s elapsed m) = Inr r \<longrightarrow>
      message_type r = Member RESULT \<or> message_type r = Member ERROR) \<and>
   (recipients m = [] \<longrightarrow>
      (\<exists>r. fst (process_message s elapsed m) = Inr r \<and>
         message_type r = Member ERROR \<and>
         sender r = ascii ''system'' \<and>
         metadata r (ascii ''original_message_id'') = Some (PStr (msg_id m)) \<and>
         content r = PStr (error_prefix @ exn_str IndexError)) \<and>
      errors (stats (snd (process_message s elapsed m))) = errors (stats s) + 1) \<and>
   (\<forall>a rest. recipients m = a # rest \<and> map_of (agents s) a = None \<longrightarrow>
      (\<exists>r. fst (process_message s elapsed m) = Inr r \<and>
         message_type r = Member ERROR \<and>
         metadata r (ascii ''original_message_id'') = Some (PStr (msg_id m)) \<and>
         content r = PStr (error_prefix @ exn_str (ValueError (agent_not_found a)))) \<and>
      errors (stats (snd (process_message s elapsed m))) = errors (stats s) + 1) \<and>
   (\<forall>a rest ag e. recipients m = a # rest \<and> map_of (agents s) a = Some ag \<and>
        process ag (content m) = Inl e \<and> is_Exception e \<longrightarrow>
      (\<exists>r. fst (process_message s elapsed m) = Inr r \<and>
         message_type r = Member ERROR \<and>
         metadata r (ascii ''original_message_id'') = Some (PStr (msg_id m)) \<and>
         content r = PStr (error_prefix @ exn_str e)) \<and>
      errors (stats (snd (process_message s elapsed m))) = errors (stats s) + 1) \<and>
   (\<forall>a rest ag e. recipients m = a # rest \<and> map_of (agents s) a = Some ag \<and>
        process ag (content m) = Inl e \<and> \<not> is_Exception e \<longrightarrow>
      process_message s elapsed m = (Inl e, s))"
proof -
  have caught: "(\<exists>r. fst (process_message s elapsed m) = Inr r \<and>
         message_type r = Member ERROR \<and>
         sender r = (case recipients m of [] \<Rightarrow> ascii ''system'' | agent_id # _ \<Rightarrow> agent_id) \<and>
         metadata r (ascii ''original_message_id'') = Some (PStr (msg_id m)) \<and>
         content r = PStr (error_prefix @ exn_str e)) \<and>
      errors (stats (snd (process_message s elapsed m))) = errors (stats s) + 1"
    if "run_agent s m = Inl e" and "is_Exception e" for e
    by (simp add: process_message_failure[OF that] error_response_fields count_error_def)
  have builtin: "is_Exception IndexError" "is_Exception (ValueError msg)" for msg
    by (simp_all add: IndexError_def ValueError_def)
  show ?thesis
  proof (intro conjI allI impI)
    fix e assume "fst (process_message s elapsed m) = Inl e"
    then show "\<not> is_Exception e"
      by (auto simp: process_message_def split: sum.splits if_splits)
  next
    fix r assume "fst (process_message s elapsed m) = Inr r"
    then show "message_type r = Member RESULT \<or> message_type r = Member ERROR"
      by (auto simp: process_message_def error_response_def response_def
          split: sum.splits if_splits)
  next
    assume empty: "recipients m = []"
    from caught[OF run_agent_cases(1)[OF empty] builtin(1)] empty
    show "\<exists>r. fst (process_message s elapsed m) = Inr r \<and>
         message_type r = Member ERROR \<and>
         sender r = ascii ''system'' \<and>
         metadata r (ascii ''original_message_id'') = Some (PStr (msg_id m)) \<and>
         content r = PStr (error_prefix @ exn_str IndexError)"
      and "errors (stats (snd (process_message s elapsed m))) = errors (stats s) + 1"
      by auto
  next
    fix a rest
    assume h: "recipients m = a # rest \<and> map_of (agents s) a = None"
    then have "run_agent s m = Inl (ValueError (agent_not_found a))"
      by (simp add: run_agent_cases)
    from caught[OF this builtin(2)]
    show "\<exists>r. fst (process_message s elapsed m) = Inr r \<and>
         message_type r = Member ERROR \<and>
         metadata r (ascii ''original_message_id'') = Some (PStr (msg_id m)) \<and>
         content r = PStr (error_prefix @ exn_str (ValueError (agent_not_found a)))"
      and "errors (stats (snd (process_message s elapsed m))) = errors (stats s) + 1"
      by auto
  next
    fix a rest ag e
    assume h: "recipients m = a # rest \<and> map_of (agents s) a = Some ag \<and>
        process ag (content m) = Inl e \<and> is_Exception e"
    then have "run_agent s m = Inl e"
      by (simp add: run_agent_cases)
    from caught[OF this] h
    show "\<exists>r. fst (process_message s elapsed m) = Inr r \<and>
         message_type r = Member ERROR \<and>
         metadata r (ascii ''original_message_id'') = Some (PStr (msg_id m)) \<and>
         content r = PStr (error_prefix @ exn_str e)"
      and "errors (stats (snd (process_message s elapsed m))) = errors (stats s) + 1"
      by auto
  next
    fix a rest ag e
    assume h: "recipients m = a # rest \<and> map_of (agents s) a = Some ag \<and>
        process ag (content m) = Inl e \<and> \<not> is_Exception e"
    then have "run_agent s m = Inl e"
      by (simp add: run_agent_cases)
    with h show "process_message s elapsed m = (Inl e, s)"
      by (simp add: process_message_propagates)
  qed
qed

text \<open>
  Without the restriction to \<open>Exception\<close> the property fails: when the awaited
  \<open>process\<close> of a registered agent is cancelled, \<open>process_message\<close> raises
  \<open>CancelledError\<close> to its caller, returns no message and counts no error.
\<close>

theorem cancelled_agent_raises:
  "recipients (sample_message (ascii ''user'') [ascii ''worker'']) = [ascii ''worker''] \<and>
   map_of (agents three_agents) (ascii ''worker'') = Some cancelled_agent \<and>
   process cancelled_agent (content (sample_message (ascii ''user'') [ascii ''worker''])) =
     Inl CancelledError \<and>
   fst (process_message three_agents stopped_clock
     (sample_message (ascii ''user'') [ascii ''worker''])) = Inl CancelledError \<and>
   errors (stats (snd (process_message three_agents stopped_clock
     (sample_message (ascii ''user'') [ascii ''worker''])))) = errors (stats three_agents)"
  by (simp add: sample_defs process_message_def run_agent_def)

theorem process_message_errors_witness:
  "recipients (sample_message (ascii ''user'') []) = [] \<and>
   (\<exists>r. fst (process_message three_agents stopped_clock (sample_message (ascii ''user'') []))
        = Inr r \<and>
      message_type r = Member ERROR \<and> sender r = ascii ''system'') \<and>
   map_of (agents three_agents) (ascii ''ghost'') = None \<and>
   (\<exists>r. fst (process_message three_agents stopped_clock
          (sample_message (ascii ''user'') [ascii ''ghost''])) = Inr r \<and>
      message_type r = Member ERROR \<and>
      content r = PStr (error_prefix @ agent_not_found (ascii ''ghost''))) \<and>
   map_of (agents three_agents) (ascii ''coder'') = Some broken_agent \<and>
   process broken_agent (content (sample_message (ascii ''user'') [ascii ''coder''])) =
     Inl RuntimeError \<and>
   is_Exception RuntimeError \<and>
   (\<exists>r. fst (process_message three_agents stopped_clock
          (sample_message (ascii ''user'') [ascii ''coder''])) = Inr r \<and>
      message_type r = Member ERROR \<and>
      content r = PStr (error_prefix @ ascii ''boom'')) \<and>
   errors (stats (snd
     (process_message three_agents stopped_clock (sample_message (ascii ''user'') [ascii ''coder'']))))
     = 1 \<and>
   map_of (agents three_agents) (ascii ''worker'') = Some cancelled_agent \<and>
   process cancelled_agent (content (sample_message (ascii ''user'') [ascii ''worker''])) =
     Inl CancelledError \<and>
   \<not> is_Exception CancelledError \<and>
   process_message three_agents stopped_clock (sample_message (ascii ''user'') [ascii ''worker''])
     = (Inl CancelledError, three_agents)"
proof -
  let ?none = "sample_message (ascii ''user'') []"
  let ?ghost = "sample_message (ascii ''user'') [ascii ''ghost'']"
  let ?coder = "sample_message (ascii ''user'') [ascii ''coder'']"
  let ?worker = "sample_message (ascii ''user'') [ascii ''worker'']"
  have a1: "recipients ?none = []"
    by (simp add: sample_message_def)
  have b1: "recipients ?ghost = ascii ''ghost'' # []"
    by (simp add: sample_message_def)
  have b2: "map_of (agents three_agents) (ascii ''ghost'') = None"
    by (simp add: sample_defs)
  have c1: "recipients ?coder = ascii ''coder'' # []"
    by (simp add: sample_message_def)
  have c2: "map_of (agents three_agents) (ascii ''coder'') = Some broken_agent"
    by (simp add: sample_defs)
  have c3: "process broken_agent (content ?coder) = Inl RuntimeError"
    by (simp add: broken_agent_def)
  have c4: "is_Exception RuntimeError"
    by (simp add: RuntimeError_def)
  have d1: "recipients ?worker = ascii ''worker'' # []"
    by (simp add: sample_message_def)
  have d2: "map_of (agents three_agents) (ascii ''worker'') = Some cancelled_agent"
    by (simp add: sample_defs)
  have d3: "process cancelled_agent (content ?worker) = Inl CancelledError"
    by (simp add: cancelled_agent_def)
  have d4: "\<not> is_Exception CancelledError"
    by (simp add: CancelledError_def)
  have e0: "errors (stats three_agents) = 0"
    by (simp add: sample_defs)
  have boom: "exn_str RuntimeError = ascii ''boom''"
    by (simp add: RuntimeError_def)
  from process_message_errors[where s = three_agents and elapsed = stopped_clock and m = ?none] a1
  have ra: "\<exists>r. fst (process_message three_agents stopped_clock ?none) = Inr r \<and>
      message_type r = Member ERROR \<and> sender r = ascii ''system''"
    by blast
  from process_message_errors[where s = three_agents and elapsed = stopped_clock and m = ?ghost]
    b1 b2
  have rb: "\<exists>r. fst (process_message three_agents stopped_clock ?ghost) = Inr r \<and>
      message_type r = Member ERROR \<and>
      content r = PStr (error_prefix @ exn_str (ValueError (agent_not_found (ascii ''ghost''))))"
    by blast
  from process_message_errors[where s = three_agents and elapsed = stopped_clock and m = ?coder]
    c1 c2 c3 c4
  have rc: "\<exists>r. fst (process_message three_agents stopped_clock ?coder) = Inr r \<and>
      message_type r = Member ERROR \<and> content r = PStr (error_prefix @ exn_str RuntimeError)"
    "errors (stats (snd (process_message three_agents stopped_clock ?coder))) =
       errors (stats three_agents) + 1"
    by blast+
  from process_message_errors[where s = three_agents and elapsed = stopped_clock and m = ?worker]
    d1 d2 d3 d4
  have rd: "process_message three_agents stopped_clock ?worker = (Inl CancelledError, three_agents)"
    by blast
  from rb have rb': "\<exists>r. fst (process_message three_agents stopped_clock ?ghost) = Inr r \<and>
      message_type r = Member ERROR \<and>
      content r = PStr (error_prefix @ agent_not_found (ascii ''ghost''))"
    by (simp add: ValueError_def)
  from rc(1) have rc': "\<exists>r. fst (process_message three_agents stopped_clock ?coder) = Inr r \<and>
      message_type r = Member ERROR \<and> content r = PStr (error_prefix @ ascii ''boom'')"
    by (simp add: boom)
  from rc(2) have rc2: "errors (stats (snd (process_message three_agents stopped_clock ?coder))) = 1"
    by (simp add: e0)
  from a1 ra b2 rb' c2 c3 c4 rc' rc2 d2 d3 d4 rd show ?thesis
    by (intro conjI)
qed

text \<open>
  C6: when the first recipient is a registered agent whose \<open>process\<close> returns, the answer
  has kind RESULT, the agent as sender, the original sender as only recipient (none when
  that sender is \<open>system\<close>), the agent's result as content, and metadata holding the
  original id, the measured time and the agent's capability and limitation lists.
\<close>

theorem process_message_result:
  assumes "recipients m = a # rest"
    and "map_of (agents s) a = Some ag"
    and "process ag (content m) = Inr res"
  shows "\<exists>r. fst (process_message s elapsed m) = Inr r \<and>
    message_type r = Member RESULT \<and>
    sender r = a \<and>
    recipients r = (if sender m = ascii ''system'' then [] else [sender m]) \<and>
    content r = res \<and>
    metadata r (ascii ''original_message_id'') = Some (PStr (msg_id m)) \<and>
    metadata r (ascii ''processing_time'') = Some (PFloat (elapsed 0)) \<and>
    metadata r (ascii ''agent_capabilities'') = Some (PList (map PStr (get_capabilities ag))) \<and>
    metadata r (ascii ''agent_limitations'') = Some (PList (map PStr (get_limitations ag)))"
proof -
  have f: "process_message s elapsed m =
      (Inr (response m a ag res (elapsed 0)), count_processed s (elapsed 1))"
    using assms by (simp add: process_message_success run_agent_cases)
  show ?thesis
    by (simp add: f response_def reply_to_def response_keys)
qed

theorem process_message_result_witness:
  "recipients (sample_message (ascii ''system'') [ascii ''analyst'']) = [ascii ''analyst''] \<and>
   map_of (agents two_agents) (ascii ''analyst'') = Some analyst_agent \<and>
   process analyst_agent (content (sample_message (ascii ''system'') [ascii ''analyst''])) =
     Inr (PStr (ascii ''report'')) \<and>
   (\<exists>r. fst (process_message two_agents stopped_clock
          (sample_message (ascii ''system'') [ascii ''analyst''])) = Inr r \<and>
      message_type r = Member RESULT \<and>
      sender r = ascii ''analyst'' \<and>
      recipients r = [] \<and>
      content r = PStr (ascii ''report'') \<and>
      metadata r (ascii ''original_message_id'') = Some (PStr (ascii ''m1'')) \<and>
      metadata r (ascii ''processing_time'') = Some (PFloat 0) \<and>
      metadata r (ascii ''agent_capabilities'') = Some (PList [PStr (ascii ''data_analysis'')]) \<and>
      metadata r (ascii ''agent_limitations'') = Some (PList [PStr (ascii ''no_code'')]))"
proof -
  let ?m = "sample_message (ascii ''system'') [ascii ''analyst'']"
  have h1: "recipients ?m = ascii ''analyst'' # []"
    by (simp add: sample_message_def)
  have h2: "map_of (agents two_agents) (ascii ''analyst'') = Some analyst_agent"
    by (simp add: sample_defs)
  have h3: "process analyst_agent (content ?m) = Inr (PStr (ascii ''report''))"
    by (simp add: analyst_agent_def)
  have m: "sender ?m = ascii ''system''" "msg_id ?m = ascii ''m1''"
    by (simp_all add: sample_message_def)
  have ag: "get_capabilities analyst_agent = [ascii ''data_analysis'']"
    "get_limitations analyst_agent = [ascii ''no_code'']"
    by (simp_all add: analyst_agent_def)
  from process_message_result[OF h1 h2 h3, of stopped_clock]
  have "\<exists>r. fst (process_message two_agents stopped_clock ?m) = Inr r \<and>
      message_type r = Member RESULT \<and>
      sender r = ascii ''analyst'' \<and>
      recipients r = [] \<and>
      content r = PStr (ascii ''report'') \<and>
      metadata r (ascii ''original_message_id'') = Some (PStr (ascii ''m1'')) \<and>
      metadata r (ascii ''processing_time'') = Some (PFloat 0) \<and>
      metadata r (ascii ''agent_capabilities'') = Some (PList [PStr (ascii ''data_analysis'')]) \<and>
      metadata r (ascii ''agent_limitations'') = Some (PList [PStr (ascii ''no_code'')])"
    by (simp add: m ag stopped_clock_def)
  with h1 h2 h3 show ?thesis by simp
qed

subsection \<open>Counters\<close>

text \<open>
  C5: after a \<open>route_message\<close> call that returns, the counter \<open>messages_routed\<close> is its
  old value plus the number of messages returned (and it is unchanged by a call that
  raises). A \<open>process_message\<close> call that succeeds adds one to \<open>messages_processed\<close> and
  leaves \<open>errors\<close>; one that fails leaves \<open>messages_processed\<close> and the other entries
  of the statistics and adds one to \<open>errors\<close> (nothing when the exception is no
  \<open>Exception\<close> and leaves the call).
\<close>

theorem stats_counters:
  "(\<forall>out. fst (route_message s m) = Inr out \<longrightarrow>
      messages_routed (stats (snd (route_message s m))) =
        messages_routed (stats s) + int (length out)) \<and>
   (\<forall>e. fst (route_message s m) = Inl e \<longrightarrow>
      messages_routed (stats (snd (route_message s m))) = messages_routed (stats s)) \<and>
   (\<forall>a ag res. run_agent s m = Inr (a, ag, res) \<longrightarrow>
      messages_processed (stats (snd (process_message s elapsed m))) =
        messages_processed (stats s) + 1 \<and>
      errors (stats (snd (process_message s elapsed m))) = errors (stats s)) \<and>
   (\<forall>e. run_agent s m = Inl e \<longrightarrow>
      messages_processed (stats (snd (process_message s elapsed m))) =
        messages_processed (stats s) \<and>
      messages_routed (stats (snd (process_message s elapsed m))) = messages_routed (stats s) \<and>
      avg_processing_time (stats (snd (process_message s elapsed m))) =
        avg_processing_time (stats s) \<and>
      errors (stats (snd (process_message s elapsed m))) =
        errors (stats s) + (if is_Exception e then 1 else 0))"
proof (intro conjI allI impI)
  fix out assume "fst (route_message s m) = Inr out"
  then show "messages_routed (stats (snd (route_message s m))) =
     messages_routed (stats s) + int (length out)"
    by (auto simp: route_message_def Let_def count_routed_def count_error_def
        split: sum.splits list.splits if_splits)
next
  fix e assume "fst (route_message s m) = Inl e"
  then show "messages_routed (stats (snd (route_message s m))) = messages_routed (stats s)"
    by (auto simp: route_message_def Let_def split: sum.splits list.splits if_splits)
next
  fix a ag res assume h: "run_agent s m = Inr (a, ag, res)"
  show "messages_processed (stats (snd (process_message s elapsed m))) =
        messages_processed (stats s) + 1"
    "errors (stats (snd (process_message s elapsed m))) = errors (stats s)"
    by (simp_all add: process_message_success[OF h] count_processed_def)
next
  fix e assume h: "run_agent s m = Inl e"
  show "messages_processed (stats (snd (process_message s elapsed m))) =
        messages_processed (stats s)"
    "messages_routed (stats (snd (process_message s elapsed m))) = messages_routed (stats s)"
    "avg_processing_time (stats (snd (process_message s elapsed m))) =
        avg_processing_time (stats s)"
    "errors (stats (snd (process_message s elapsed m))) =
        errors (stats s) + (if is_Exception e then 1 else 0)"
    using h by (simp_all add: process_message_def count_error_def)
qed

theorem stats_counters_witness:
  "fst (route_message
     (add_routing_rule two_agents (sample_rule True PARALLEL [ascii ''analyst'', ascii ''coder''] 1))
     (sample_message (ascii ''user'') [])) =
     Inr (map (parallel_message (sample_message (ascii ''user'') []))
            [ascii ''analyst'', ascii ''coder'']) \<and>
   messages_routed (stats (snd (route_message
     (add_routing_rule two_agents (sample_rule True PARALLEL [ascii ''analyst'', ascii ''coder''] 1))
     (sample_message (ascii ''user'') [])))) = 2 \<and>
   fst (route_message
     (add_routing_rule two_agents (raising_rule CancelledError PARALLEL [ascii ''analyst''] 1))
     (sample_message (ascii ''user'') [])) = Inl CancelledError \<and>
   messages_routed (stats (snd (route_message
     (add_routing_rule two_agents (raising_rule CancelledError PARALLEL [ascii ''analyst''] 1))
     (sample_message (ascii ''user'') [])))) = 0 \<and>
   run_agent two_agents (sample_message (ascii ''user'') [ascii ''analyst'']) =
     Inr (ascii ''analyst'', analyst_agent, PStr (ascii ''report'')) \<and>
   messages_processed (stats (snd
     (process_message two_agents stopped_clock
        (sample_message (ascii ''user'') [ascii ''analyst''])))) = 1 \<and>
   errors (stats (snd
     (process_message two_agents stopped_clock
        (sample_message (ascii ''user'') [ascii ''analyst''])))) = 0 \<and>
   run_agent two_agents (sample_message (ascii ''user'') [ascii ''coder'']) = Inl RuntimeError \<and>
   messages_processed (stats (snd
     (process_message two_agents stopped_clock
        (sample_message (ascii ''user'') [ascii ''coder''])))) = 0 \<and>
   errors (stats (snd
     (process_message two_agents stopped_clock
        (sample_message (ascii ''user'') [ascii ''coder''])))) = 1"
proof -
  let ?m = "sample_message (ascii ''user'') []"
  let ?sp = "add_routing_rule two_agents
    (sample_rule True PARALLEL [ascii ''analyst'', ascii ''coder''] 1)"
  let ?sr = "add_routing_rule two_agents (raising_rule CancelledError PARALLEL [ascii ''analyst''] 1)"
  let ?ok = "sample_message (ascii ''user'') [ascii ''analyst'']"
  let ?bad = "sample_message (ascii ''user'') [ascii ''coder'']"
  have r1: "fst (route_message ?sp ?m) =
      Inr (map (parallel_message ?m) [ascii ''analyst'', ascii ''coder''])"
    by (simp add: sample_defs route_message_def available_agents_def)
  have r2: "fst (route_message ?sr ?m) = Inl CancelledError"
    by (simp add: sample_defs route_message_def)
  have h1: "run_agent two_agents ?ok = Inr (ascii ''analyst'', analyst_agent, PStr (ascii ''report''))"
    by (simp add: run_agent_def sample_defs)
  have h2: "run_agent two_agents ?bad = Inl RuntimeError"
    by (simp add: run_agent_def sample_defs)
  have z: "messages_processed (stats two_agents) = 0" "errors (stats two_agents) = 0"
    "messages_routed (stats ?sp) = 0" "messages_routed (stats ?sr) = 0"
    "is_Exception RuntimeError"
    by (simp_all add: sample_defs)
  from stats_counters[of ?sp ?m] r1 have routed:
    "messages_routed (stats (snd (route_message ?sp ?m))) =
       messages_routed (stats ?sp) +
       int (length (map (parallel_message ?m) [ascii ''analyst'', ascii ''coder'']))"
    by blast
  from stats_counters[of ?sr ?m] r2 have raised:
    "messages_routed (stats (snd (route_message ?sr ?m))) = messages_routed (stats ?sr)"
    by blast
  from stats_counters[of two_agents ?ok stopped_clock] h1 have ok:
    "messages_processed (stats (snd (process_message two_agents stopped_clock ?ok))) =
       messages_processed (stats two_agents) + 1"
    "errors (stats (snd (process_message two_agents stopped_clock ?ok))) = errors (stats two_agents)"
    by blast+
  from stats_counters[of two_agents ?bad stopped_clock] h2 have bad:
    "messages_processed (stats (snd (process_message two_agents stopped_clock ?bad))) =
       messages_processed (stats two_agents)"
    "errors (stats (snd (process_message two_agents stopped_clock ?bad))) =
       errors (stats two_agents) + (if is_Exception RuntimeError then 1 else 0)"
    by blast+
  from routed have routed': "messages_routed (stats (snd (route_message ?sp ?m))) = 2"
    by (simp add: z)
  from raised have raised': "messages_routed (stats (snd (route_message ?sr ?m))) = 0"
    by (simp add: z)
  from ok have ok': "messages_processed (stats (snd (process_message two_agents stopped_clock ?ok))) = 1"
    "errors (stats (snd (process_message two_agents stopped_clock ?ok))) = 0"
    by (simp_all add: z)
  from bad have bad': "messages_processed (stats (snd (process_message two_agents stopped_clock ?bad))) = 0"
    "errors (stats (snd (process_message two_agents stopped_clock ?bad))) = 1"
    by (simp_all add: z)
  from r1 routed' r2 raised' h1 ok' h2 bad' show ?thesis
    by (intro conjI)
qed

subsection \<open>The rule list stays sorted\<close>

lemma sort_descending: "descending (sort_key (\<lambda>x. - priority x) rs)"
proof -
  have "sorted (map (\<lambda>x. - priority x) (sort_key (\<lambda>x. - priority x) rs))"
    by (rule sorted_sort_key)
  then show ?thesis by (simp add: descending_def sorted_map)
qed

lemma sort_keeps_ties:
  "filter (\<lambda>r. priority r = p) (sort_key (\<lambda>x. - priority x) rs) =
   filter (\<lambda>r. priority r = p) rs"
  using sort_key_stable[of "\<lambda>x. - priority x" "- p" rs] by simp

lemma add_routing_rules_descending:
  "descending (routing_rules s) \<Longrightarrow> descending (routing_rules (foldl add_routing_rule s rs))"
proof (induction rs arbitrary: s)
  case Nil
  then show ?case by simp
next
  case (Cons r rs)
  have "descending (routing_rules (add_routing_rule s r))"
    by (simp add: add_routing_rule_def sort_descending)
  from Cons.IH[OF this] show ?case by simp
qed

lemma add_routing_rules_stable:
  "filter (\<lambda>r. priority r = p) (routing_rules (foldl add_routing_rule s rs)) =
   filter (\<lambda>r. priority r = p) (routing_rules s @ rs)"
proof (induction rs arbitrary: s)
  case Nil
  show ?case by simp
next
  case (Cons r rs)
  have "filter (\<lambda>r. priority r = p) (routing_rules (foldl add_routing_rule (add_routing_rule s r) rs)) =
        filter (\<lambda>r. priority r = p) (routing_rules (add_routing_rule s r) @ rs)"
    by (rule Cons.IH)
  also have "\<dots> = filter (\<lambda>r. priority r = p) (routing_rules s @ [r]) @ filter (\<lambda>r. priority r = p) rs"
    by (simp add: add_routing_rule_def sort_keeps_ties[of p "routing_rules s @ [r]"])
  finally show ?case by simp
qed

lemma route_message_rules: "routing_rules (snd (route_message s m)) = routing_rules s"
  by (auto simp: route_message_def Let_def count_routed_def count_error_def
      split: sum.splits list.splits)

lemma process_message_rules: "routing_rules (snd (process_message s elapsed m)) = routing_rules s"
  by (auto simp: process_message_def count_processed_def count_error_def split: sum.splits)

text \<open>
  C7: starting from a rule list that is non-increasing in priority, the list is
  non-increasing in priority after any sequence of \<open>add_routing_rule\<close> calls, and the rules
  of each priority stand in the order in which they were inserted; routing, processing
  and registering an agent leave the rule list as it is.
\<close>

theorem rules_stay_sorted:
  assumes "descending (routing_rules s)"
  shows "descending (routing_rules (foldl add_routing_rule s rs)) \<and>
    (\<forall>p. filter (\<lambda>r. priority r = p) (routing_rules (foldl add_routing_rule s rs)) =
          filter (\<lambda>r. priority r = p) (routing_rules s @ rs)) \<and>
    routing_rules (snd (route_message s m)) = routing_rules s \<and>
    routing_rules (snd (process_message s elapsed m)) = routing_rules s \<and>
    routing_rules (register_agent s a ag) = routing_rules s"
  using assms
  by (simp add: add_routing_rules_descending add_routing_rules_stable route_message_rules
      process_message_rules register_agent_def)

theorem rules_stay_sorted_witness:
  "descending (routing_rules two_agents) \<and>
   descending
     (routing_rules (foldl add_routing_rule two_agents
        [sample_rule True SEQUENTIAL [ascii ''analyst''] 5,
         sample_rule True PARALLEL [ascii ''coder''] 10,
         sample_rule True BROADCAST [] 5])) \<and>
   map strategy
     (filter (\<lambda>r. priority r = 5)
        (routing_rules (foldl add_routing_rule two_agents
           [sample_rule True SEQUENTIAL [ascii ''analyst''] 5,
            sample_rule True PARALLEL [ascii ''coder''] 10,
            sample_rule True BROADCAST [] 5]))) = [SEQUENTIAL, BROADCAST]"
proof -
  let ?rs = "[sample_rule True SEQUENTIAL [ascii ''analyst''] 5,
         sample_rule True PARALLEL [ascii ''coder''] 10,
         sample_rule True BROADCAST [] 5]"
  have h: "descending (routing_rules two_agents)"
    by (simp add: sample_defs descending_def)
  have r0: "routing_rules two_agents = []"
    by (simp add: sample_defs)
  from rules_stay_sorted[OF h, of ?rs] have
    d: "descending (routing_rules (foldl add_routing_rule two_agents ?rs))" and
    f: "filter (\<lambda>r. priority r = 5) (routing_rules (foldl add_routing_rule two_agents ?rs)) =
        filter (\<lambda>r. priority r = 5) (routing_rules two_agents @ ?rs)"
    by blast+
  have "map strategy
      (filter (\<lambda>r. priority r = 5) (routing_rules (foldl add_routing_rule two_agents ?rs))) =
      [SEQUENTIAL, BROADCAST]"
    unfolding f r0 by (simp add: sample_rule_def)
  with h d show ?thesis by blast
qed

subsection \<open>Message kinds\<close>

lemma new_Message_unchecked:
  assumes "\<forall>v. x \<noteq> PStr v"
  shows "new_Message i s rs (Value x) c md p =
    Some \<lparr>msg_id = i, sender = s, recipients = rs, message_type = Value x,
          content = c, metadata = md, msg_priority = p\<rparr>"
  using assms by (cases x) (simp_all add: new_Message_def)

text \<open>
  C9: a message constructed with a member of the enumeration or with a string as
  \<open>message_type\<close> has a member of the enumeration as its kind; construction from a raw
  string that is not the value of a member fails, and one that succeeds yields the member
  with that value.
\<close>

theorem message_type_closed:
  "(\<forall>msg. ((\<exists>t. mt = Member t) \<or> (\<exists>v. mt = Value (PStr v))) \<and>
      new_Message i s rs mt c md p = Some msg \<longrightarrow>
      message_type msg \<in>
        {Member TASK, Member RESULT, Member ERROR, Member CONTROL, Member DATA}) \<and>
   (\<forall>v. v \<notin> {ascii ''task'', ascii ''result'', ascii ''error'', ascii ''control'', ascii ''data''} \<longrightarrow>
      new_Message i s rs (Value (PStr v)) c md p = None) \<and>
   (\<forall>v msg. new_Message i s rs (Value (PStr v)) c md p = Some msg \<longrightarrow>
      (\<exists>t. MessageType_of_value v = Some t \<and> message_type msg = Member t))"
proof (intro conjI allI impI)
  fix msg
  assume h: "((\<exists>t. mt = Member t) \<or> (\<exists>v. mt = Value (PStr v))) \<and>
      new_Message i s rs mt c md p = Some msg"
  then have "\<exists>t. message_type msg = Member t"
    by (auto simp: new_Message_def split: option.splits)
  then obtain t where "message_type msg = Member t" ..
  then show "message_type msg \<in>
      {Member TASK, Member RESULT, Member ERROR, Member CONTROL, Member DATA}"
    by (cases t) simp_all
next
  fix v :: pystr
  assume "v \<notin> {ascii ''task'', ascii ''result'', ascii ''error'', ascii ''control'', ascii ''data''}"
  then show "new_Message i s rs (Value (PStr v)) c md p = None"
    by (simp add: new_Message_def MessageType_of_value_def)
next
  fix v msg assume "new_Message i s rs (Value (PStr v)) c md p = Some msg"
  then show "\<exists>t. MessageType_of_value v = Some t \<and> message_type msg = Member t"
    by (auto simp: new_Message_def split: option.splits)
qed

text \<open>
  The restriction to members and strings is needed: \<open>__post_init__\<close> converts strings
  only, so \<open>Message("m1", "user", [], 42, None)\<close> is constructed with the kind \<open>42\<close>,
  which is no member of the enumeration.
\<close>

theorem unchecked_kind_constructed:
  "new_Message (ascii ''m1'') (ascii ''user'') [] (Value (PInt 42)) PNone no_metadata 0 =
     Some unchecked_message \<and>
   message_type unchecked_message = Value (PInt 42) \<and>
   message_type unchecked_message \<notin>
     {Member TASK, Member RESULT, Member ERROR, Member CONTROL, Member DATA}"
  by (simp add: new_Message_def unchecked_message_def no_metadata_def)

theorem message_type_closed_witness:
  "new_Message (ascii ''m1'') (ascii ''user'') [] (Value (PStr (ascii ''task''))) PNone
     no_metadata 0 =
     Some \<lparr>msg_id = ascii ''m1'', sender = ascii ''user'', recipients = [],
            message_type = Member TASK, content = PNone, metadata = no_metadata,
            msg_priority = 0\<rparr> \<and>
   MessageType_of_value (ascii ''task'') = Some TASK \<and>
   new_Message (ascii ''m1'') (ascii ''user'') [] (Member DATA) PNone no_metadata 0 =
     Some \<lparr>msg_id = ascii ''m1'', sender = ascii ''user'', recipients = [],
            message_type = Member DATA, content = PNone, metadata = no_metadata,
            msg_priority = 0\<rparr> \<and>
   ascii ''TASK'' \<notin>
     {ascii ''task'', ascii ''result'', ascii ''error'', ascii ''control'', ascii ''data''} \<and>
   new_Message (ascii ''m1'') (ascii ''user'') [] (Value (PStr (ascii ''TASK''))) PNone
     no_metadata 0 = None"
proof -
  let ?task = "\<lparr>msg_id = ascii ''m1'', sender = ascii ''user'', recipients = [],
            message_type = Member TASK, content = PNone, metadata = no_metadata,
            msg_priority = 0\<rparr>"
  let ?data = "\<lparr>msg_id = ascii ''m1'', sender = ascii ''user'', recipients = [],
            message_type = Member DATA, content = PNone, metadata = no_metadata,
            msg_priority = 0\<rparr>"
  have h1: "new_Message (ascii ''m1'') (ascii ''user'') [] (Value (PStr (ascii ''task''))) PNone
      no_metadata 0 = Some ?task"
    by (simp add: new_Message_def MessageType_of_value_def)
  have h2: "ascii ''TASK'' \<notin>
     {ascii ''task'', ascii ''result'', ascii ''error'', ascii ''control'', ascii ''data''}"
    by (simp add: ascii_def)
  have h3: "new_Message (ascii ''m1'') (ascii ''user'') [] (Member DATA) PNone no_metadata 0 =
      Some ?data"
    by (simp add: new_Message_def)
  from message_type_closed[of "Value (PStr (ascii ''task''))" "ascii ''m1''" "ascii ''user''" "[]"
      PNone no_metadata 0] h1 h2
  have c1: "\<exists>t. MessageType_of_value (ascii ''task'') = Some t \<and> message_type ?task = Member t"
    and c2: "new_Message (ascii ''m1'') (ascii ''user'') [] (Value (PStr (ascii ''TASK''))) PNone
      no_metadata 0 = None"
    by blast+
  from message_type_closed[of "Member DATA" "ascii ''m1''" "ascii ''user''" "[]"
      PNone no_metadata 0] h3
  have c3: "message_type ?data \<in>
      {Member TASK, Member RESULT, Member ERROR, Member CONTROL, Member DATA}"
    by blast
  from c1 have c1': "MessageType_of_value (ascii ''task'') = Some TASK"
    by simp
  from h1 c1' h3 h2 c2 show ?thesis
    by (intro conjI)
qed

end
